theory Spec2Isabelle
  imports Main "HOL-Library.Sublist" "HOL-Library.Multiset"
begin

section \<open>Python values, strings and exceptions\<close>

text \<open>
  The report engine lives in two Python modules: \<^verbatim>\<open>deep_ai/util.py\<close> (the search
  aggregator) and \<^verbatim>\<open>deep_ai/agent.py\<close> (the section stages, the compile step and the
  graph wiring). A Python \<^verbatim>\<open>str\<close> is modelled as a \<^typ>\<open>string\<close>, one \<^typ>\<open>char\<close> per
  character. The backslash cannot be written inside a string literal, so it has a name.
\<close>

abbreviation BACKSLASH :: char where "BACKSLASH \<equiv> CHR 0x5C"
abbreviation DOLLAR :: char where "DOLLAR \<equiv> CHR ''$''"

text \<open>
  The exceptions the modelled code can raise. \<open>KeyError\<close> carries the missing key (the
  specification calls a \<open>KeyError\<close> raised by the compile step \<open>MissingSectionError\<close>).
  \<open>UnboundLocalError\<close> carries the name of the unassigned local variable.
  \<open>RuntimeError\<close> is what \<^verbatim>\<open>get_llm\<close> and \<^verbatim>\<open>get_tavily_search\<close> raise themselves;
  \<open>ProviderError\<close> stands for any exception raised inside a provider library (the LLM
  client, the search client).
\<close>

datatype error =
    KeyError string
  | TypeError
  | UnboundLocalError string
  | RuntimeError string
  | ProviderError string

text \<open>
  \<^verbatim>\<open>s.replace(old, new)\<close>: every non-overlapping occurrence of \<open>old\<close>, found from left
  to right, is replaced. With an empty \<open>old\<close>, \<open>new\<close> is inserted before every character
  and at the end.
\<close>

fun replace_str :: "string \<Rightarrow> string \<Rightarrow> string \<Rightarrow> string" where
  "replace_str old new [] = (if old = [] then new else [])"
| "replace_str old new (c # cs) =
     (if old = [] then new @ c # replace_str old new cs
      else if prefix old (c # cs) then new @ replace_str old new (drop (length old) (c # cs))
      else c # replace_str old new cs)"

text \<open>\<^verbatim>\<open>sep.join(xs)\<close>.\<close>

fun py_join :: "string \<Rightarrow> string list \<Rightarrow> string" where
  "py_join sep [] = []"
| "py_join sep [x] = x"
| "py_join sep (x # y # ys) = x @ sep @ py_join sep (y # ys)"

text \<open>
  \<^verbatim>\<open>s.strip()\<close> removes leading and trailing whitespace. For the characters a \<^typ>\<open>char\<close>
  can hold, \<^verbatim>\<open>str.isspace\<close> is true of the code points 9 to 13, 28 to 32, 133 and 160.
\<close>

definition py_isspace :: "char \<Rightarrow> bool" where
  "py_isspace c =
     (let n = of_char c :: nat
      in (9 \<le> n \<and> n \<le> 13) \<or> (28 \<le> n \<and> n \<le> 32) \<or> n = 133 \<or> n = 160)"

definition py_strip :: "string \<Rightarrow> string" where
  "py_strip s = rev (dropWhile py_isspace (rev (dropWhile py_isspace s)))"

text \<open>\<^verbatim>\<open>pat in s\<close> for strings.\<close>

fun contains_str :: "string \<Rightarrow> string \<Rightarrow> bool" where
  "contains_str pat [] = (pat = [])"
| "contains_str pat (c # cs) = (prefix pat (c # cs) \<or> contains_str pat cs)"

text \<open>\<^verbatim>\<open>str(n)\<close> for a non-negative integer, as the f-strings print a section index.\<close>

fun digit_char :: "nat \<Rightarrow> char" where
  "digit_char n = char_of (48 + n mod 10)"

function str_of_nat :: "nat \<Rightarrow> string" where
  "str_of_nat n = (if n < 10 then [digit_char n] else str_of_nat (n div 10) @ [digit_char n])"
  by pat_completeness auto
termination
  by (relation "measure id") auto

definition str_of_bool :: "bool \<Rightarrow> string" where
  "str_of_bool b = (if b then ''True'' else ''False'')"

text \<open>
  The search provider returns JSON-like data. Its values are modelled by \<open>pyval\<close>:
  \<^verbatim>\<open>None\<close>, a string, a list, or a dict with string keys, kept as an association list in
  insertion order (looked up with \<^const>\<open>map_of\<close>). Numbers and booleans are left out: no
  field the aggregator reads holds one.
\<close>

datatype pyval =
    PNone
  | PStr string
  | PList "pyval list"
  | PDict "(string \<times> pyval) list"

type_synonym pydict = "(string \<times> pyval) list"

text \<open>\<^verbatim>\<open>key in d\<close> and \<^verbatim>\<open>d.get(key, default)\<close>.\<close>

definition has_key :: "pydict \<Rightarrow> string \<Rightarrow> bool" where
  "has_key d k = (map_of d k \<noteq> None)"

definition dict_get :: "pydict \<Rightarrow> string \<Rightarrow> pyval \<Rightarrow> pyval" where
  "dict_get d k dflt = (case map_of d k of Some v \<Rightarrow> v | None \<Rightarrow> dflt)"

text \<open>Truthiness, as \<^verbatim>\<open>if raw_content:\<close> tests it.\<close>

fun truthy :: "pyval \<Rightarrow> bool" where
  "truthy PNone = False"
| "truthy (PStr s) = (s \<noteq> [])"
| "truthy (PList xs) = (xs \<noteq> [])"
| "truthy (PDict d) = (d \<noteq> [])"

text \<open>A list or a dict cannot be a dictionary key: hashing it raises \<open>TypeError\<close>.\<close>

fun hashable :: "pyval \<Rightarrow> bool" where
  "hashable (PList xs) = False"
| "hashable (PDict d) = False"
| "hashable v = True"

text \<open>
  \<^verbatim>\<open>str(v)\<close>, as an f-string formats a value. The text of a list or a dict is Python's
  \<^verbatim>\<open>repr\<close>, which is not modelled: it is the parameter \<open>repr\<close>.
\<close>

fun py_str :: "(pyval \<Rightarrow> string) \<Rightarrow> pyval \<Rightarrow> string" where
  "py_str repr (PStr s) = s"
| "py_str repr PNone = ''None''"
| "py_str repr v = repr v"

text \<open>\<^verbatim>\<open>xs[:m]\<close>: a negative bound counts from the end.\<close>

definition slice_to :: "int \<Rightarrow> 'a list \<Rightarrow> 'a list" where
  "slice_to m xs = (if 0 \<le> m then take (nat m) xs else take (length xs - nat (- m)) xs)"

section \<open>The search aggregator (\<^verbatim>\<open>deep_ai/util.py\<close>)\<close>

text \<open>
  A query handed to \<^verbatim>\<open>run_search_queries\<close> is a plain string or a \<^verbatim>\<open>SearchQuery\<close>
  object; \<open>query_str\<close> is the unwrapping
  \<^verbatim>\<open>query.search_query if isinstance(query, SearchQuery) else str(query)\<close>.
\<close>

datatype query_arg = QStr string | QSearchQuery string

fun query_str :: "query_arg \<Rightarrow> string" where
  "query_str (QSearchQuery q) = q"
| "query_str (QStr q) = q"

text \<open>
  The search client. \<open>raw_results_async\<close> takes the keyword arguments of the call
  (\<open>query\<close>, \<open>max_results\<close>, \<open>search_depth\<close>, \<open>include_answer\<close>,
  \<open>include_raw_content\<close>). The call itself may raise (outer \<open>Inl\<close>); otherwise it gives a
  task that, once awaited, has settled to an exception or to a response (inner sum).
\<close>

record tavily =
  raw_results_async :: "string \<Rightarrow> int \<Rightarrow> string \<Rightarrow> bool \<Rightarrow> bool \<Rightarrow> error + (error + pyval)"

text \<open>
  The tokenizer obtained from \<^verbatim>\<open>tiktoken.encoding_for_model("gpt-4")\<close>: a parameter of
  the model, with the \<^verbatim>\<open>repr\<close> of container values.
\<close>

record encoding =
  encode :: "string \<Rightarrow> nat list"
  decode :: "nat list \<Rightarrow> string"
  py_repr :: "pyval \<Rightarrow> string"

text \<open>
  \<^verbatim>\<open>get_tavily_search\<close>: the outcome of \<^verbatim>\<open>TavilySearchAPIWrapper()\<close> is the parameter
  \<open>constructed\<close>; any failure is re-raised as a \<open>RuntimeError\<close>.
\<close>

definition get_tavily_search :: "error + tavily \<Rightarrow> error + tavily" where
  "get_tavily_search constructed =
     (case constructed of
        Inr client \<Rightarrow> Inr client
      | Inl e \<Rightarrow> Inl (RuntimeError
          ''Tavily API key not found or invalid. Please set the TAVILY_API_KEY environment variable.''))"

text \<open>
  The loop that creates one search task per query; a call that raises is skipped
  (\<^verbatim>\<open>continue\<close>).
\<close>

fun create_search_tasks ::
  "tavily \<Rightarrow> int \<Rightarrow> bool \<Rightarrow> (error + pyval) list \<Rightarrow> query_arg list \<Rightarrow> (error + pyval) list" where
  "create_search_tasks tavily_search num_results include_raw_content search_tasks [] = search_tasks"
| "create_search_tasks tavily_search num_results include_raw_content search_tasks (query # rest) =
     (case raw_results_async tavily_search (query_str query) num_results ''advanced'' False
             include_raw_content of
        Inr task \<Rightarrow>
          create_search_tasks tavily_search num_results include_raw_content
            (search_tasks @ [task]) rest
      | Inl e \<Rightarrow>
          create_search_tasks tavily_search num_results include_raw_content search_tasks rest)"

text \<open>
  \<^verbatim>\<open>asyncio.gather(*search_tasks, return_exceptions=True)\<close> hands back every task's
  outcome, an exception as a value; the comprehension keeps the outcomes that are not
  exceptions.
\<close>

definition valid_results :: "(error + pyval) list \<Rightarrow> pyval list" where
  "valid_results search_docs =
     concat (map (\<lambda>doc. case doc of Inr d \<Rightarrow> [d] | Inl e \<Rightarrow> []) search_docs)"

definition run_search_queries ::
  "error + tavily \<Rightarrow> query_arg list \<Rightarrow> int \<Rightarrow> bool \<Rightarrow> error + pyval list" where
  "run_search_queries constructed search_queries num_results include_raw_content =
     (case get_tavily_search constructed of
        Inl e \<Rightarrow> Inr []
      | Inr tavily_search \<Rightarrow>
          (let search_tasks =
                 create_search_tasks tavily_search num_results include_raw_content [] search_queries
           in if search_tasks = [] then Inr []
              else Inr (valid_results search_tasks)))"

text \<open>
  \<^verbatim>\<open>sources_list.extend(x)\<close> iterates over \<open>x\<close>: a list gives its elements, a string its
  characters, a dict its keys, and \<^verbatim>\<open>None\<close> raises \<open>TypeError\<close>.
\<close>

fun extend_with :: "pyval \<Rightarrow> error + pyval list" where
  "extend_with (PList xs) = Inr xs"
| "extend_with (PStr s) = Inr (map (\<lambda>c. PStr [c]) s)"
| "extend_with (PDict d) = Inr (map (\<lambda>kv. PStr (fst kv)) d)"
| "extend_with PNone = Inl TypeError"

text \<open>The dict branch: the nested \<open>results\<close> list if there is one, else the dict itself.\<close>

definition dict_sources :: "pydict \<Rightarrow> error + pyval list" where
  "dict_sources response =
     (if has_key response ''results'' then extend_with (dict_get response ''results'' PNone)
      else Inr [PDict response])"

text \<open>The loop over a list response; an element that is neither dict nor list adds nothing.\<close>

fun list_sources :: "pyval list \<Rightarrow> pyval list \<Rightarrow> error + pyval list" where
  "list_sources sources_list [] = Inr sources_list"
| "list_sources sources_list (response # rest) =
     (case response of
        PDict d \<Rightarrow>
          (case dict_sources d of
             Inl e \<Rightarrow> Inl e
           | Inr found \<Rightarrow> list_sources (sources_list @ found) rest)
      | PList xs \<Rightarrow> list_sources (sources_list @ xs) rest
      | PStr s \<Rightarrow> list_sources sources_list rest
      | PNone \<Rightarrow> list_sources sources_list rest)"

fun flatten_response :: "pyval \<Rightarrow> error + pyval list" where
  "flatten_response (PDict d) = dict_sources d"
| "flatten_response (PList rs) = list_sources [] rs"
| "flatten_response v = Inr []"

text \<open>
  The deduplication loop. \<open>unique_sources\<close> is a dict from URL to source; it is kept as
  an association list in insertion order, which is the order \<^verbatim>\<open>.values()\<close> yields.
\<close>

fun dedup_loop :: "(pyval \<times> pydict) list \<Rightarrow> pyval list \<Rightarrow> error + (pyval \<times> pydict) list" where
  "dedup_loop unique_sources [] = Inr unique_sources"
| "dedup_loop unique_sources (source # rest) =
     (case source of
        PDict d \<Rightarrow>
          (if has_key d ''url'' then
             (let url = dict_get d ''url'' PNone
              in if \<not> hashable url then Inl TypeError
                 else if url \<notin> fst ` set unique_sources
                      then dedup_loop (unique_sources @ [(url, d)]) rest
                      else dedup_loop unique_sources rest)
           else dedup_loop unique_sources rest)
      | PNone \<Rightarrow> dedup_loop unique_sources rest
      | PStr s \<Rightarrow> dedup_loop unique_sources rest
      | PList xs \<Rightarrow> dedup_loop unique_sources rest)"

text \<open>The text one source adds to \<open>formatted_text\<close>.\<close>

definition source_block :: "encoding \<Rightarrow> int \<Rightarrow> bool \<Rightarrow> pydict \<Rightarrow> error + string" where
  "source_block enc max_tokens include_raw_content source =
     (let text =
            ''Source '' @ py_str (py_repr enc) (dict_get source ''title'' (PStr ''Untitled''))
              @ '':\<newline>===\<newline>''
            @ ''URL: '' @ py_str (py_repr enc) (dict_get source ''url'' PNone)
              @ ''\<newline>===\<newline>''
            @ ''Most relevant content from source: ''
              @ py_str (py_repr enc) (dict_get source ''content'' (PStr ''No content available''))
              @ ''\<newline>===\<newline>''
      in if include_raw_content then
           (let raw_content = dict_get source ''raw_content'' (PStr [])
            in if truthy raw_content then
                 (case raw_content of
                    PStr raw \<Rightarrow>
                      (let tokens = encode enc raw;
                           truncated_tokens = slice_to max_tokens tokens;
                           truncated_content = decode enc truncated_tokens
                       in Inr (text @ ''Raw Content: '' @ truncated_content
                                 @ ''\<newline>\<newline>''))
                  | PNone \<Rightarrow> Inl TypeError
                  | PList xs \<Rightarrow> Inl TypeError
                  | PDict d \<Rightarrow> Inl TypeError)
               else Inr text)
         else Inr text)"

fun format_loop ::
  "encoding \<Rightarrow> int \<Rightarrow> bool \<Rightarrow> string \<Rightarrow> (pyval \<times> pydict) list \<Rightarrow> error + string" where
  "format_loop enc max_tokens include_raw_content formatted_text [] = Inr formatted_text"
| "format_loop enc max_tokens include_raw_content formatted_text (entry # rest) =
     (case source_block enc max_tokens include_raw_content (snd entry) of
        Inl e \<Rightarrow> Inl e
      | Inr block \<Rightarrow>
          format_loop enc max_tokens include_raw_content (formatted_text @ block) rest)"

text \<open>The part of \<^verbatim>\<open>format_search_query_results\<close> that follows the flattening.\<close>

definition format_sources :: "encoding \<Rightarrow> int \<Rightarrow> bool \<Rightarrow> pyval list \<Rightarrow> error + string" where
  "format_sources enc max_tokens include_raw_content sources_list =
     (if sources_list = [] then Inr ''No search results found.''
      else case dedup_loop [] sources_list of
             Inl e \<Rightarrow> Inl e
           | Inr unique_sources \<Rightarrow>
               (case format_loop enc max_tokens include_raw_content
                       ''Content from web search:\<newline>\<newline>'' unique_sources of
                  Inl e \<Rightarrow> Inl e
                | Inr formatted_text \<Rightarrow> Inr (py_strip formatted_text)))"

definition format_search_query_results ::
  "encoding \<Rightarrow> pyval \<Rightarrow> int \<Rightarrow> bool \<Rightarrow> error + string" where
  "format_search_query_results enc search_response max_tokens include_raw_content =
     (case flatten_response search_response of
        Inl e \<Rightarrow> Inl e
      | Inr sources_list \<Rightarrow> format_sources enc max_tokens include_raw_content sources_list)"

section \<open>The report workflow (\<^verbatim>\<open>deep_ai/agent.py\<close>)\<close>

subsection \<open>State\<close>

record Section =
  name :: string
  description :: string
  research :: bool
  content :: string

record ReportState =
  topic :: string
  sections :: "Section list"
  completed_sections :: "Section list"
  report_sections_from_research :: string
  final_report :: string

text \<open>
  \<open>SectionState\<close>: the state of one branch. Its key \<^verbatim>\<open>section\<close> is the field
  \<open>the_section\<close>; \<open>search_queries\<close> holds the \<^verbatim>\<open>search_query\<close> strings of the
  \<^verbatim>\<open>SearchQuery\<close> objects.
\<close>

record SectionState =
  the_section :: Section
  search_queries :: "string list"
  source_str :: string
  from_research :: string

subsection \<open>Providers\<close>

text \<open>
  The chat model. \<open>invoke\<close> is \<^verbatim>\<open>llm.invoke([SystemMessage(...), HumanMessage(...)])\<close>
  followed by \<^verbatim>\<open>.content\<close>; \<open>invoke_Queries\<close> and \<open>invoke_Sections\<close> are the same call
  on \<^verbatim>\<open>llm.with_structured_output(Queries)\<close> and
  \<^verbatim>\<open>llm.with_structured_output(Sections)\<close>, followed by \<^verbatim>\<open>.queries\<close> and
  \<^verbatim>\<open>.sections\<close>. Each takes the system and the human message and may raise.
\<close>

record llm =
  invoke :: "string \<Rightarrow> string \<Rightarrow> error + string"
  invoke_Queries :: "string \<Rightarrow> string \<Rightarrow> error + string list"
  invoke_Sections :: "string \<Rightarrow> string \<Rightarrow> error + Section list"

text \<open>
  The prompt templates of \<^verbatim>\<open>deep_ai/prompts.py\<close>, each with its \<^verbatim>\<open>.format\<close> call. Only
  the chat model reads the text, so the formatted prompts are parameters. The report
  structure handed to the planner prompts is the constant \<^verbatim>\<open>DEFAULT_REPORT_STRUCTURE\<close>.
\<close>

record prompts =
  REPORT_PLAN_QUERY_GENERATOR_PROMPT :: "string \<Rightarrow> nat \<Rightarrow> string"
  REPORT_PLAN_SECTION_GENERATOR_PROMPT :: "string \<Rightarrow> string \<Rightarrow> string"
  REPORT_SECTION_QUERY_GENERATOR_PROMPT :: "string \<Rightarrow> nat \<Rightarrow> string"
  SECTION_WRITER_PROMPT :: "string \<Rightarrow> string \<Rightarrow> string \<Rightarrow> string"
  FINAL_SECTION_WRITER_PROMPT :: "string \<Rightarrow> string \<Rightarrow> string \<Rightarrow> string"

text \<open>
  Everything outside the repository that a run depends on: the outcome of constructing
  each client, the tokenizer and the prompts.
\<close>

record services =
  ChatOpenAI :: "error + llm"
  TavilySearchAPIWrapper :: "error + tavily"
  tokenizer :: encoding
  templates :: prompts

definition get_llm :: "error + llm \<Rightarrow> error + llm" where
  "get_llm constructed =
     (case constructed of
        Inr model \<Rightarrow> Inr model
      | Inl e \<Rightarrow> Inl (RuntimeError
          ''OpenAI API key not found or invalid. Please set the OPENAI_API_KEY environment variable.''))"

subsection \<open>Planning\<close>

text \<open>The \<^verbatim>\<open>try\<close> block of \<^verbatim>\<open>generate_report_plan\<close>.\<close>

definition plan_sections :: "services \<Rightarrow> llm \<Rightarrow> string \<Rightarrow> error + Section list" where
  "plan_sections sv model the_topic =
     (let number_of_queries = 4;
          system_instructions_query =
            REPORT_PLAN_QUERY_GENERATOR_PROMPT (templates sv) the_topic number_of_queries
      in case invoke_Queries model system_instructions_query
                ''Generate search queries that will help with planning the sections of the report.'' of
           Inl e \<Rightarrow> Inl e
         | Inr query_list \<Rightarrow>
             (case run_search_queries (TavilySearchAPIWrapper sv) (map QStr query_list) 4 False of
                Inl e \<Rightarrow> Inl e
              | Inr search_docs \<Rightarrow>
                  (case (if search_docs = [] then Inr ''No search results available.''
                         else format_search_query_results (tokenizer sv) (PList search_docs)
                                2500 False) of
                     Inl e \<Rightarrow> Inl e
                   | Inr search_context \<Rightarrow>
                       invoke_Sections model
                         (REPORT_PLAN_SECTION_GENERATOR_PROMPT (templates sv) the_topic search_context)
                         (''Generate the sections of the report. Your response must include a ''
                          @ [CHR 0x27] @ ''sections'' @ [CHR 0x27]
                          @ '' field containing a list of sections. Each section must have: ''
                          @ ''name, description, plan, research, and content fields.''))))"

definition generate_report_plan :: "services \<Rightarrow> ReportState \<Rightarrow> error + ReportState" where
  "generate_report_plan sv state =
     (case get_llm (ChatOpenAI sv) of
        Inl e \<Rightarrow> Inr (state\<lparr>sections := []\<rparr>)
      | Inr model \<Rightarrow>
          (case plan_sections sv model (topic state) of
             Inr report_sections \<Rightarrow> Inr (state\<lparr>sections := report_sections\<rparr>)
           | Inl e \<Rightarrow> Inr (state\<lparr>sections := []\<rparr>)))"

subsection \<open>The section sub-workflow\<close>

definition generate_queries :: "services \<Rightarrow> SectionState \<Rightarrow> error + SectionState" where
  "generate_queries sv state =
     (case get_llm (ChatOpenAI sv) of
        Inl e \<Rightarrow> Inr (state\<lparr>search_queries := []\<rparr>)
      | Inr model \<Rightarrow>
          (let number_of_queries = 4;
               system_instructions =
                 REPORT_SECTION_QUERY_GENERATOR_PROMPT (templates sv)
                   (description (the_section state)) number_of_queries;
               user_instruction = ''Generate search queries on the provided topic.''
           in case invoke_Queries model system_instructions user_instruction of
                Inl e \<Rightarrow> Inl e
              | Inr queries \<Rightarrow> Inr (state\<lparr>search_queries := queries\<rparr>)))"

definition search_web :: "services \<Rightarrow> SectionState \<Rightarrow> error + SectionState" where
  "search_web sv state =
     (let query_list = search_queries state
      in case run_search_queries (TavilySearchAPIWrapper sv) (map QStr query_list) 4 True of
           Inl e \<Rightarrow> Inl e
         | Inr search_docs \<Rightarrow>
             (case format_search_query_results (tokenizer sv) (PList search_docs) 4000 True of
                Inl e \<Rightarrow> Inl e
              | Inr search_context \<Rightarrow> Inr (state\<lparr>source_str := search_context\<rparr>)))"

text \<open>
  \<^verbatim>\<open>write_section\<close> and \<^verbatim>\<open>write_final_sections\<close> return the update
  \<^verbatim>\<open>{"completed_sections": [section]}\<close>: the result is that list.
\<close>

definition write_section :: "services \<Rightarrow> SectionState \<Rightarrow> error + Section list" where
  "write_section sv state =
     (let section = the_section state
      in case get_llm (ChatOpenAI sv) of
           Inl e \<Rightarrow>
             Inr [section\<lparr>content := ''Error: Could not generate content due to API issues.''\<rparr>]
         | Inr model \<Rightarrow>
             (let system_instructions =
                    SECTION_WRITER_PROMPT (templates sv) (name section) (description section)
                      (source_str state);
                  user_instruction = ''Generate a report section based on the provided sources.''
              in case invoke model system_instructions user_instruction of
                   Inl e \<Rightarrow> Inl e
                 | Inr section_content \<Rightarrow> Inr [section\<lparr>content := section_content\<rparr>]))"

definition section_builder_subagent :: "services \<Rightarrow> SectionState \<Rightarrow> error + Section list" where
  "section_builder_subagent sv state =
     (case generate_queries sv state of
        Inl e \<Rightarrow> Inl e
      | Inr state1 \<Rightarrow>
          (case search_web sv state1 of
             Inl e \<Rightarrow> Inl e
           | Inr state2 \<Rightarrow> write_section sv state2))"

subsection \<open>The final sections\<close>

text \<open>
  In \<^verbatim>\<open>write_final_sections\<close> the handler of a failed \<^verbatim>\<open>get_llm\<close> only prints and falls
  through; the local \<^verbatim>\<open>llm\<close> is then unassigned when \<^verbatim>\<open>llm.invoke\<close> is reached.
\<close>

definition write_final_sections :: "services \<Rightarrow> SectionState \<Rightarrow> error + Section list" where
  "write_final_sections sv state =
     (let section = the_section state;
          completed_report_sections = from_research state;
          system_instructions =
            FINAL_SECTION_WRITER_PROMPT (templates sv) (name section) (description section)
              completed_report_sections;
          user_instruction = ''Craft a report section based on the provided sources.''
      in case get_llm (ChatOpenAI sv) of
           Inl e \<Rightarrow> Inl (UnboundLocalError ''llm'')
         | Inr model \<Rightarrow>
             (case invoke model system_instructions user_instruction of
                Inl e \<Rightarrow> Inl e
              | Inr section_content \<Rightarrow> Inr [section\<lparr>content := section_content\<rparr>]))"

subsection \<open>Fan-out and the research context\<close>

text \<open>The payloads the two conditional edges send, one per branch.\<close>

definition parallelize_section_writing :: "ReportState \<Rightarrow> SectionState list" where
  "parallelize_section_writing state =
     map (\<lambda>s. \<lparr>the_section = s, search_queries = [], source_str = [], from_research = []\<rparr>)
       (filter research (sections state))"

definition parallelize_final_section_writing :: "ReportState \<Rightarrow> SectionState list" where
  "parallelize_final_section_writing state =
     map (\<lambda>s. \<lparr>the_section = s, search_queries = [], source_str = [],
               from_research = report_sections_from_research state\<rparr>)
       (filter (\<lambda>s. \<not> research s) (sections state))"

text \<open>\<^verbatim>\<open>format_sections\<close>: one block per section, numbered from 1.\<close>

definition section_block :: "nat \<Rightarrow> Section \<Rightarrow> string" where
  "section_block idx section =
     ''\<newline>'' @ replicate 60 (CHR ''='') @ ''\<newline>''
     @ ''Section '' @ str_of_nat idx @ '': '' @ name section @ ''\<newline>''
     @ replicate 60 (CHR ''='') @ ''\<newline>''
     @ ''Description:\<newline>'' @ description section @ ''\<newline>''
     @ ''Requires Research:\<newline>'' @ str_of_bool (research section) @ ''\<newline>''
     @ ''\<newline>''
     @ ''Content:\<newline>''
     @ (if content section \<noteq> [] then content section else ''[Not yet written]'') @ ''\<newline>''
     @ ''\<newline>''"

fun format_sections_from :: "nat \<Rightarrow> string \<Rightarrow> Section list \<Rightarrow> string" where
  "format_sections_from idx formatted_str [] = formatted_str"
| "format_sections_from idx formatted_str (section # rest) =
     format_sections_from (Suc idx) (formatted_str @ section_block idx section) rest"

definition format_sections :: "Section list \<Rightarrow> string" where
  "format_sections secs = format_sections_from 1 [] secs"

definition format_completed_sections :: "ReportState \<Rightarrow> ReportState" where
  "format_completed_sections state =
     state\<lparr>report_sections_from_research := format_sections (completed_sections state)\<rparr>"

subsection \<open>Compiling the final report\<close>

definition ESCAPED_DOLLAR :: string where
  "ESCAPED_DOLLAR = [BACKSLASH, DOLLAR]"

definition TEMP_PLACEHOLDER :: string where
  "TEMP_PLACEHOLDER = ''TEMP_PLACEHOLDER''"

text \<open>The three \<^verbatim>\<open>replace\<close> calls: mark the escaped dollars, escape every dollar, restore.\<close>

definition escape_dollars :: "string \<Rightarrow> string" where
  "escape_dollars all_sections =
     (let formatted_sections = replace_str ESCAPED_DOLLAR TEMP_PLACEHOLDER all_sections;
          formatted_sections = replace_str [DOLLAR] ESCAPED_DOLLAR formatted_sections;
          formatted_sections = replace_str TEMP_PLACEHOLDER ESCAPED_DOLLAR formatted_sections
      in formatted_sections)"

text \<open>
  The dict comprehension \<^verbatim>\<open>{s.name: s.content for s in state["completed_sections"]}\<close>: a
  later section overwrites an earlier one of the same name.
\<close>

fun name_to_content :: "(string \<rightharpoonup> string) \<Rightarrow> Section list \<Rightarrow> (string \<rightharpoonup> string)" where
  "name_to_content m [] = m"
| "name_to_content m (s # rest) = name_to_content (m(name s \<mapsto> content s)) rest"

text \<open>
  The loop \<^verbatim>\<open>section.content = completed_sections[section.name]\<close>, in plan order; a name
  that is not a key raises \<open>KeyError\<close>.
\<close>

fun reassign_contents :: "(string \<rightharpoonup> string) \<Rightarrow> Section list \<Rightarrow> error + Section list" where
  "reassign_contents completed [] = Inr []"
| "reassign_contents completed (section # rest) =
     (case completed (name section) of
        None \<Rightarrow> Inl (KeyError (name section))
      | Some c \<Rightarrow>
          (case reassign_contents completed rest of
             Inl e \<Rightarrow> Inl e
           | Inr rest' \<Rightarrow> Inr (section\<lparr>content := c\<rparr> # rest')))"

definition compile_final_report :: "ReportState \<Rightarrow> error + ReportState" where
  "compile_final_report state =
     (let completed = name_to_content Map.empty (completed_sections state)
      in case reassign_contents completed (sections state) of
           Inl e \<Rightarrow> Inl e
         | Inr updated \<Rightarrow>
             (let all_sections = py_join ''\<newline>\<newline>'' (map content updated);
                  formatted_sections = escape_dollars all_sections
              in Inr (state\<lparr>sections := updated, final_report := formatted_sections\<rparr>)))"

subsection \<open>The graph\<close>

text \<open>
  A fan-out stage: every branch runs the node on its payload and the lists the branches
  return are added onto \<open>completed_sections\<close>; an exception in a branch leaves the stage.
\<close>

fun run_branches :: "('a \<Rightarrow> error + Section list) \<Rightarrow> 'a list \<Rightarrow> error + Section list" where
  "run_branches node [] = Inr []"
| "run_branches node (payload # rest) =
     (case node payload of
        Inl e \<Rightarrow> Inl e
      | Inr out \<Rightarrow>
          (case run_branches node rest of
             Inl e \<Rightarrow> Inl e
           | Inr others \<Rightarrow> Inr (out @ others)))"

text \<open>
  Modelled from the spec: the executor of the compiled graph (\<^verbatim>\<open>reporter_agent.astream\<close>,
  from the graph library) is not among the sources, only the nodes and the edges between
  them are. The run below follows the declared edges in the order of the specification's
  state machine (plan, research fan-out, join, final fan-out, join, compile), each join
  running once all branches of the stage before it have returned, and yields the value of
  \<^verbatim>\<open>final_report\<close>.
\<close>

definition reporter_agent :: "services \<Rightarrow> string \<Rightarrow> error + string" where
  "reporter_agent sv the_topic =
     (let state = \<lparr>topic = the_topic, sections = [], completed_sections = [],
                   report_sections_from_research = [], final_report = []\<rparr>
      in case generate_report_plan sv state of
           Inl e \<Rightarrow> Inl e
         | Inr state \<Rightarrow>
             (case run_branches (section_builder_subagent sv) (parallelize_section_writing state) of
                Inl e \<Rightarrow> Inl e
              | Inr written \<Rightarrow>
                  (let state = state\<lparr>completed_sections := completed_sections state @ written\<rparr>;
                       state = format_completed_sections state
                   in case run_branches (write_final_sections sv)
                             (parallelize_final_section_writing state) of
                        Inl e \<Rightarrow> Inl e
                      | Inr written \<Rightarrow>
                          (let state =
                                 state\<lparr>completed_sections := completed_sections state @ written\<rparr>
                           in case compile_final_report state of
                                Inl e \<Rightarrow> Inl e
                              | Inr state \<Rightarrow> Inr (final_report state)))))"

section \<open>Reference definitions\<close>

text \<open>
  The escaping pass as the specification words it: an already escaped dollar (a backslash
  followed by a dollar) is kept as it is, every other dollar gains one backslash, and
  every other character is copied.
\<close>

fun escape_each_bare_dollar :: "string \<Rightarrow> string" where
  "escape_each_bare_dollar [] = []"
| "escape_each_bare_dollar [c] = (if c = DOLLAR then [BACKSLASH, DOLLAR] else [c])"
| "escape_each_bare_dollar (c # d # cs) =
     (if c = BACKSLASH \<and> d = DOLLAR then BACKSLASH # DOLLAR # escape_each_bare_dollar cs
      else if c = DOLLAR then BACKSLASH # DOLLAR # escape_each_bare_dollar (d # cs)
      else c # escape_each_bare_dollar (d # cs))"

text \<open>The marker without its first character, the only \<open>T\<close> in it.\<close>

definition PLACEHOLDER_TAIL :: string where
  "PLACEHOLDER_TAIL = ''EMP_PLACEHOLDER''"

text \<open>
  Deduplication as the specification words it: the first occurrence of a URL wins and
  every later source with the same URL is dropped. \<open>url_of\<close> is the value under the key
  \<open>url\<close> of a source that is a dict; a source without one is never a duplicate.
\<close>

definition url_of :: "pyval \<Rightarrow> pyval option" where
  "url_of source =
     (case source of
        PDict d \<Rightarrow> map_of d ''url''
      | PNone \<Rightarrow> None
      | PStr s \<Rightarrow> None
      | PList xs \<Rightarrow> None)"

definition with_url :: "pyval \<Rightarrow> bool" where
  "with_url source = (url_of source \<noteq> None)"

fun drop_later_duplicates :: "pyval list \<Rightarrow> pyval list" where
  "drop_later_duplicates [] = []"
| "drop_later_duplicates (s # rest) =
     s # drop_later_duplicates (filter (\<lambda>t. url_of s = None \<or> url_of t \<noteq> url_of s) rest)"

text \<open>The entries of \<open>unique_sources\<close> that a list of sources stands for, one per dict with a URL.\<close>

definition entries :: "pyval list \<Rightarrow> (pyval \<times> pydict) list" where
  "entries srcs =
     concat (map (\<lambda>s. case s of
                          PDict d \<Rightarrow> (case map_of d ''url'' of Some u \<Rightarrow> [(u, d)] | None \<Rightarrow> [])
                        | PNone \<Rightarrow> []
                        | PStr x \<Rightarrow> []
                        | PList xs \<Rightarrow> []) srcs)"

text \<open>A source whose URL is not yet a key of the dict built so far.\<close>

definition fresh :: "(pyval \<times> pydict) list \<Rightarrow> pyval \<Rightarrow> bool" where
  "fresh acc t = (case url_of t of Some u \<Rightarrow> u \<notin> fst ` set acc | None \<Rightarrow> False)"

section \<open>Example providers and data\<close>

text \<open>
  A tokenizer with one token per character, and a search client that answers the query
  \<open>ev\<close>, times out on the query \<open>slow\<close> and refuses every other call.
\<close>

definition example_encoding :: encoding where
  "example_encoding = \<lparr>encode = map of_char, decode = map char_of, py_repr = (\<lambda>v. ''<object>'')\<rparr>"

definition source_a :: pyval where
  "source_a = PDict [(''title'', PStr ''A''), (''url'', PStr ''http://a''), (''content'', PStr ''alpha'')]"

definition source_a_again :: pyval where
  "source_a_again =
     PDict [(''title'', PStr ''A, later''), (''url'', PStr ''http://a''), (''content'', PStr ''other'')]"

definition source_b :: pyval where
  "source_b = PDict [(''title'', PStr ''B''), (''url'', PStr ''http://b''), (''content'', PStr ''beta'')]"

definition source_without_url :: pyval where
  "source_without_url = PDict [(''title'', PStr ''no link''), (''content'', PStr ''gamma'')]"

definition response_ev :: pyval where
  "response_ev = PDict [(''query'', PStr ''ev''), (''results'', PList [source_a, source_b])]"

definition example_tavily :: tavily where
  "example_tavily =
     \<lparr>raw_results_async = (\<lambda>query max_results search_depth include_answer include_raw_content.
        if query = ''ev'' then Inr (Inr response_ev)
        else if query = ''slow'' then Inr (Inl (ProviderError ''timeout''))
        else Inl (ProviderError ''rejected''))\<rparr>"

text \<open>
  Sections, prompts and chat models for concrete runs: a model whose text generation
  fails while its structured calls succeed, and a model whose query generation fails.
\<close>

definition section_intro :: Section where
  "section_intro =
     \<lparr>name = ''Introduction'', description = ''Opening'', research = False, content = []\<rparr>"

definition section_batteries :: Section where
  "section_batteries =
     \<lparr>name = ''Battery Supply Chains'', description = ''Where the cells come from'',
      research = True, content = []\<rparr>"

definition section_charging :: Section where
  "section_charging =
     \<lparr>name = ''Charging Infrastructure'', description = ''Where the cars charge'',
      research = True, content = []\<rparr>"

definition example_prompts :: prompts where
  "example_prompts =
     \<lparr>REPORT_PLAN_QUERY_GENERATOR_PROMPT = (\<lambda>t n. ''plan queries: '' @ t),
      REPORT_PLAN_SECTION_GENERATOR_PROMPT = (\<lambda>t ctx. ''plan sections: '' @ t),
      REPORT_SECTION_QUERY_GENERATOR_PROMPT = (\<lambda>d n. ''section queries: '' @ d),
      SECTION_WRITER_PROMPT = (\<lambda>title d ctx. ''write: '' @ title),
      FINAL_SECTION_WRITER_PROMPT = (\<lambda>title d ctx. ''write last: '' @ title)\<rparr>"

definition llm_failing_writer :: llm where
  "llm_failing_writer =
     \<lparr>invoke = (\<lambda>system human. Inl (ProviderError ''rate limit'')),
      invoke_Queries = (\<lambda>system human. Inr [''ev'']),
      invoke_Sections = (\<lambda>system human. Inr [section_batteries])\<rparr>"

definition llm_failing_planner :: llm where
  "llm_failing_planner =
     \<lparr>invoke = (\<lambda>system human. Inr ''text''),
      invoke_Queries = (\<lambda>system human. Inl (ProviderError ''bad schema'')),
      invoke_Sections = (\<lambda>system human. Inr [section_batteries])\<rparr>"


definition services_failing_writer :: services where
  "services_failing_writer =
     \<lparr>ChatOpenAI = Inr llm_failing_writer, TavilySearchAPIWrapper = Inr example_tavily,
      tokenizer = example_encoding, templates = example_prompts\<rparr>"

definition services_failing_planner :: services where
  "services_failing_planner =
     \<lparr>ChatOpenAI = Inr llm_failing_planner, TavilySearchAPIWrapper = Inr example_tavily,
      tokenizer = example_encoding, templates = example_prompts\<rparr>"


definition services_no_llm :: services where
  "services_no_llm =
     \<lparr>ChatOpenAI = Inl (ProviderError ''no API key''), TavilySearchAPIWrapper = Inr example_tavily,
      tokenizer = example_encoding, templates = example_prompts\<rparr>"

definition services_no_search :: services where
  "services_no_search =
     \<lparr>ChatOpenAI = Inr llm_failing_writer,
      TavilySearchAPIWrapper = Inl (ProviderError ''no API key''),
      tokenizer = example_encoding, templates = example_prompts\<rparr>"

text \<open>The payload of a branch and the state of a run before planning.\<close>

definition branch_payload :: "Section \<Rightarrow> string \<Rightarrow> SectionState" where
  "branch_payload s ctx = \<lparr>the_section = s, search_queries = [], source_str = [], from_research = ctx\<rparr>"

definition planned_state :: "Section list \<Rightarrow> Section list \<Rightarrow> ReportState" where
  "planned_state secs completed =
     \<lparr>topic = ''Impact of electric vehicles on urban infrastructure'', sections = secs,
      completed_sections = completed, report_sections_from_research = [], final_report = []\<rparr>"

section \<open>The escaping pass\<close>

lemma placeholder_split: "TEMP_PLACEHOLDER = CHR ''T'' # PLACEHOLDER_TAIL"
  by (simp add: TEMP_PLACEHOLDER_def PLACEHOLDER_TAIL_def)

lemma placeholder_tail_chars:
  "BACKSLASH \<notin> set PLACEHOLDER_TAIL" "DOLLAR \<notin> set PLACEHOLDER_TAIL"
  "CHR ''T'' \<notin> set PLACEHOLDER_TAIL"
  by (simp_all add: PLACEHOLDER_TAIL_def)

lemma placeholder_chars:
  "BACKSLASH \<notin> set TEMP_PLACEHOLDER" "DOLLAR \<notin> set TEMP_PLACEHOLDER"
  by (simp_all add: TEMP_PLACEHOLDER_def)

lemma replace_dollar_append:
  "replace_str [DOLLAR] new (a @ b) = replace_str [DOLLAR] new a @ replace_str [DOLLAR] new b"
  by (induction a) auto

lemma replace_dollar_free:
  "DOLLAR \<notin> set a \<Longrightarrow> replace_str [DOLLAR] new a = a"
  by (induction a) auto

lemma replace_dollar_placeholder:
  "replace_str [DOLLAR] new (TEMP_PLACEHOLDER @ b) = TEMP_PLACEHOLDER @ replace_str [DOLLAR] new b"
  by (simp add: replace_dollar_append replace_dollar_free placeholder_chars)

lemma mark_escaped:
  "replace_str ESCAPED_DOLLAR new (BACKSLASH # DOLLAR # s) = new @ replace_str ESCAPED_DOLLAR new s"
  by (simp add: ESCAPED_DOLLAR_def)

lemma mark_other:
  "\<not> prefix ESCAPED_DOLLAR (c # s) \<Longrightarrow>
   replace_str ESCAPED_DOLLAR new (c # s) = c # replace_str ESCAPED_DOLLAR new s"
  by (auto simp: ESCAPED_DOLLAR_def)

lemma restore_placeholder:
  "replace_str TEMP_PLACEHOLDER new (TEMP_PLACEHOLDER @ s) = new @ replace_str TEMP_PLACEHOLDER new s"
  by (simp add: TEMP_PLACEHOLDER_def)

lemma restore_other:
  "\<not> prefix TEMP_PLACEHOLDER (c # s) \<Longrightarrow>
   replace_str TEMP_PLACEHOLDER new (c # s) = c # replace_str TEMP_PLACEHOLDER new s"
  by (auto simp: TEMP_PLACEHOLDER_def)

lemma prefix_placeholder_Cons:
  "prefix TEMP_PLACEHOLDER (c # X) \<longleftrightarrow> c = CHR ''T'' \<and> prefix PLACEHOLDER_TAIL X"
  by (auto simp: placeholder_split)

text \<open>
  A string without backslash, dollar or \<open>T\<close> that starts the output of the first two
  passes already starts their input: the passes only insert backslashes, dollars and
  whole markers.
\<close>

lemma prefix_transfer:
  "BACKSLASH \<notin> set u \<Longrightarrow> DOLLAR \<notin> set u \<Longrightarrow> CHR ''T'' \<notin> set u \<Longrightarrow>
   prefix u (replace_str [DOLLAR] ESCAPED_DOLLAR (replace_str ESCAPED_DOLLAR TEMP_PLACEHOLDER s)) \<Longrightarrow>
   prefix u s"
proof (induction u arbitrary: s)
  case Nil
  then show ?case by simp
next
  case (Cons x u)
  let ?out = "\<lambda>s. replace_str [DOLLAR] ESCAPED_DOLLAR (replace_str ESCAPED_DOLLAR TEMP_PLACEHOLDER s)"
  from Cons.prems have x: "x \<noteq> BACKSLASH" "x \<noteq> DOLLAR" "x \<noteq> CHR ''T''"
    and u: "BACKSLASH \<notin> set u" "DOLLAR \<notin> set u" "CHR ''T'' \<notin> set u"
    by auto
  show ?case
  proof (cases s)
    case Nil
    with Cons.prems(4) show ?thesis by (simp add: ESCAPED_DOLLAR_def)
  next
    case s: (Cons c cs)
    show ?thesis
    proof (cases "prefix ESCAPED_DOLLAR (c # cs)")
      case True
      then obtain t where t: "c # cs = BACKSLASH # DOLLAR # t"
        by (auto simp: ESCAPED_DOLLAR_def prefix_def)
      have "?out s = CHR ''T'' # PLACEHOLDER_TAIL @ ?out t"
        unfolding s t mark_escaped replace_dollar_placeholder
        by (simp add: placeholder_split)
      with Cons.prems(4) x show ?thesis by simp
    next
      case False
      show ?thesis
      proof (cases "c = DOLLAR")
        case True
        have "?out s = BACKSLASH # DOLLAR # ?out cs"
          unfolding s using True by (simp add: ESCAPED_DOLLAR_def)
        with Cons.prems(4) x show ?thesis by simp
      next
        case c: False
        have "?out s = c # ?out cs"
          unfolding s mark_other[OF False] using c by simp
        with Cons.prems(4) have "x = c" "prefix u (?out cs)" by simp_all
        with Cons.IH[OF u] s show ?thesis by simp
      qed
    qed
  qed
qed

lemma no_restore_at:
  assumes "\<not> prefix TEMP_PLACEHOLDER (c # s)"
  shows "\<not> prefix TEMP_PLACEHOLDER
           (c # replace_str [DOLLAR] ESCAPED_DOLLAR (replace_str ESCAPED_DOLLAR TEMP_PLACEHOLDER s))"
proof
  let ?X = "replace_str [DOLLAR] ESCAPED_DOLLAR (replace_str ESCAPED_DOLLAR TEMP_PLACEHOLDER s)"
  assume p: "prefix TEMP_PLACEHOLDER (c # ?X)"
  then have c: "c = CHR ''T''" and X: "prefix PLACEHOLDER_TAIL ?X"
    by (simp_all only: prefix_placeholder_Cons)
  have "prefix PLACEHOLDER_TAIL s"
    by (rule prefix_transfer[OF placeholder_tail_chars X])
  with c assms(1) show False
    by (simp add: prefix_placeholder_Cons)
qed

lemma escape_dollars_Nil: "escape_dollars [] = []"
  by (simp add: escape_dollars_def ESCAPED_DOLLAR_def TEMP_PLACEHOLDER_def)

lemma escape_dollars_escaped:
  "escape_dollars (BACKSLASH # DOLLAR # s) = BACKSLASH # DOLLAR # escape_dollars s"
proof -
  have "escape_dollars (BACKSLASH # DOLLAR # s) = ESCAPED_DOLLAR @ escape_dollars s"
    unfolding escape_dollars_def Let_def mark_escaped replace_dollar_placeholder restore_placeholder ..
  then show ?thesis by (simp add: ESCAPED_DOLLAR_def)
qed

lemma escape_dollars_bare:
  "escape_dollars (DOLLAR # s) = BACKSLASH # DOLLAR # escape_dollars s"
  by (simp add: escape_dollars_def Let_def ESCAPED_DOLLAR_def TEMP_PLACEHOLDER_def)

lemma escape_dollars_other:
  assumes "\<not> prefix TEMP_PLACEHOLDER (c # s)" "\<not> prefix ESCAPED_DOLLAR (c # s)" "c \<noteq> DOLLAR"
  shows "escape_dollars (c # s) = c # escape_dollars s"
proof -
  let ?X = "replace_str [DOLLAR] ESCAPED_DOLLAR (replace_str ESCAPED_DOLLAR TEMP_PLACEHOLDER s)"
  have "replace_str [DOLLAR] ESCAPED_DOLLAR (replace_str ESCAPED_DOLLAR TEMP_PLACEHOLDER (c # s)) = c # ?X"
    unfolding mark_other[OF assms(2)] using assms(3) by simp
  moreover have "replace_str TEMP_PLACEHOLDER ESCAPED_DOLLAR (c # ?X)
                   = c # replace_str TEMP_PLACEHOLDER ESCAPED_DOLLAR ?X"
    by (rule restore_other[OF no_restore_at[OF assms(1)]])
  ultimately show ?thesis by (simp add: escape_dollars_def)
qed

lemma not_prefix_single:
  "\<not> prefix TEMP_PLACEHOLDER [c]" "\<not> prefix ESCAPED_DOLLAR [c]"
  by (simp_all add: TEMP_PLACEHOLDER_def ESCAPED_DOLLAR_def)

lemma prefix_escaped_Cons2:
  "prefix ESCAPED_DOLLAR (c # d # cs) \<longleftrightarrow> c = BACKSLASH \<and> d = DOLLAR"
  by (auto simp: ESCAPED_DOLLAR_def)

lemma escape_dollars_reference:
  "\<not> contains_str TEMP_PLACEHOLDER s \<Longrightarrow> escape_dollars s = escape_each_bare_dollar s"
proof (induction s rule: escape_each_bare_dollar.induct)
  case 1
  show ?case by (simp add: escape_dollars_Nil)
next
  case (2 c)
  show ?case
  proof (cases "c = DOLLAR")
    case True
    then show ?thesis by (simp add: escape_dollars_bare escape_dollars_Nil)
  next
    case False
    then show ?thesis
      by (simp add: escape_dollars_other[OF not_prefix_single] escape_dollars_Nil)
  qed
next
  case (3 c d cs)
  from "3.prems" have here: "\<not> prefix TEMP_PLACEHOLDER (c # d # cs)"
    and later: "\<not> contains_str TEMP_PLACEHOLDER (d # cs)" "\<not> contains_str TEMP_PLACEHOLDER cs"
    by simp_all
  consider (escaped) "c = BACKSLASH" "d = DOLLAR"
    | (bare) "\<not> (c = BACKSLASH \<and> d = DOLLAR)" "c = DOLLAR"
    | (other) "\<not> (c = BACKSLASH \<and> d = DOLLAR)" "c \<noteq> DOLLAR"
    by blast
  then show ?case
  proof cases
    case escaped
    with "3.IH"(1) later show ?thesis by (simp add: escape_dollars_escaped)
  next
    case bare
    with "3.IH"(2) later show ?thesis by (simp add: escape_dollars_bare)
  next
    case other
    then have "\<not> prefix ESCAPED_DOLLAR (c # d # cs)"
      by (simp add: prefix_escaped_Cons2)
    from escape_dollars_other[OF here this other(2)] "3.IH"(3) other later
    show ?thesis by auto
  qed
qed

lemma mark_append_other:
  "x \<noteq> DOLLAR \<Longrightarrow>
   replace_str ESCAPED_DOLLAR new (a @ x # r)
     = replace_str ESCAPED_DOLLAR new a @ replace_str ESCAPED_DOLLAR new (x # r)"
proof (induction a rule: length_induct)
  case (1 a)
  note x = \<open>x \<noteq> DOLLAR\<close>
  have IH: "replace_str ESCAPED_DOLLAR new (ys @ x # r)
              = replace_str ESCAPED_DOLLAR new ys @ replace_str ESCAPED_DOLLAR new (x # r)"
    if "length ys < length a" for ys
    using 1 that by blast
  show ?case
  proof (cases a)
    case Nil
    then show ?thesis by (simp add: ESCAPED_DOLLAR_def)
  next
    case a: (Cons c a')
    show ?thesis
    proof (cases a')
      case Nil
      from x have n: "\<not> prefix ESCAPED_DOLLAR (c # x # r)"
        by (simp add: prefix_escaped_Cons2)
      have e: "replace_str ESCAPED_DOLLAR new [] = []"
        by (simp add: ESCAPED_DOLLAR_def)
      have "replace_str ESCAPED_DOLLAR new [c] = [c]"
        by (simp only: mark_other[OF not_prefix_single(2)] e)
      then show ?thesis
        unfolding a Nil append_Cons append_Nil mark_other[OF n] by (simp del: replace_str.simps)
    next
      case (Cons d cs)
      show ?thesis
      proof (cases "c = BACKSLASH \<and> d = DOLLAR")
        case True
        have "replace_str ESCAPED_DOLLAR new (cs @ x # r)
              = replace_str ESCAPED_DOLLAR new cs @ replace_str ESCAPED_DOLLAR new (x # r)"
          by (rule IH) (simp add: a Cons)
        with True show ?thesis
          unfolding a Cons append_Cons by (simp add: mark_escaped del: replace_str.simps)
      next
        case False
        then have n1: "\<not> prefix ESCAPED_DOLLAR (c # d # cs)"
          and n2: "\<not> prefix ESCAPED_DOLLAR (c # d # cs @ x # r)"
          by (simp_all add: prefix_escaped_Cons2)
        have "replace_str ESCAPED_DOLLAR new ((d # cs) @ x # r)
              = replace_str ESCAPED_DOLLAR new (d # cs) @ replace_str ESCAPED_DOLLAR new (x # r)"
          by (rule IH) (simp add: a Cons)
        then show ?thesis
          unfolding a Cons append_Cons mark_other[OF n1] mark_other[OF n2]
          by (simp del: replace_str.simps)
      qed
    qed
  qed
qed

lemma mark_no_backslash:
  "BACKSLASH \<notin> set u \<Longrightarrow>
   replace_str ESCAPED_DOLLAR new (u @ b) = u @ replace_str ESCAPED_DOLLAR new b"
  by (induction u) (auto simp: ESCAPED_DOLLAR_def)

lemma mark_around_placeholder:
  "replace_str ESCAPED_DOLLAR new (a @ TEMP_PLACEHOLDER @ b)
     = replace_str ESCAPED_DOLLAR new a @ TEMP_PLACEHOLDER @ replace_str ESCAPED_DOLLAR new b"
proof -
  have "replace_str ESCAPED_DOLLAR new (a @ CHR ''T'' # PLACEHOLDER_TAIL @ b)
          = replace_str ESCAPED_DOLLAR new a
            @ replace_str ESCAPED_DOLLAR new (CHR ''T'' # PLACEHOLDER_TAIL @ b)"
    by (rule mark_append_other) simp
  moreover have "replace_str ESCAPED_DOLLAR new (TEMP_PLACEHOLDER @ b)
          = TEMP_PLACEHOLDER @ replace_str ESCAPED_DOLLAR new b"
    by (rule mark_no_backslash[OF placeholder_chars(1)])
  ultimately show ?thesis by (simp add: placeholder_split)
qed

lemma placeholder_no_border:
  assumes "\<not> prefix TEMP_PLACEHOLDER X" "X \<noteq> []"
  shows "\<not> prefix TEMP_PLACEHOLDER (X @ TEMP_PLACEHOLDER @ Y)"
proof
  assume "prefix TEMP_PLACEHOLDER (X @ TEMP_PLACEHOLDER @ Y)"
  with assms(1) obtain us where us: "TEMP_PLACEHOLDER = X @ us" "prefix us (TEMP_PLACEHOLDER @ Y)"
    by (auto simp: prefix_append)
  from assms(2) obtain c X' where X: "X = c # X'" by (cases X) auto
  with us(1) have "PLACEHOLDER_TAIL = X' @ us" by (simp add: placeholder_split)
  with placeholder_tail_chars(3) have "CHR ''T'' \<notin> set us"
    by (metis Un_iff set_append)
  with us(2) have "us = []" by (cases us) (auto simp: placeholder_split)
  with us(1) assms(1) show False by simp
qed

lemma restore_around_placeholder:
  "replace_str TEMP_PLACEHOLDER new (X @ TEMP_PLACEHOLDER @ Y)
     = replace_str TEMP_PLACEHOLDER new X @ new @ replace_str TEMP_PLACEHOLDER new Y"
proof (induction X rule: length_induct)
  case (1 X)
  have IH: "replace_str TEMP_PLACEHOLDER new (Z @ TEMP_PLACEHOLDER @ Y)
              = replace_str TEMP_PLACEHOLDER new Z @ new @ replace_str TEMP_PLACEHOLDER new Y"
    if "length Z < length X" for Z
    using 1 that by blast
  show ?case
  proof (cases X)
    case Nil
    then show ?thesis by (simp add: restore_placeholder TEMP_PLACEHOLDER_def)
  next
    case (Cons c X')
    show ?thesis
    proof (cases "prefix TEMP_PLACEHOLDER X")
      case True
      then obtain Z where Z: "X = TEMP_PLACEHOLDER @ Z" by (auto simp: prefix_def)
      then have "length Z < length X" by (simp add: TEMP_PLACEHOLDER_def)
      then have "replace_str TEMP_PLACEHOLDER new (Z @ TEMP_PLACEHOLDER @ Y)
                     = replace_str TEMP_PLACEHOLDER new Z @ new @ replace_str TEMP_PLACEHOLDER new Y"
        by (rule IH)
      then show ?thesis
        unfolding Z append_assoc restore_placeholder by (simp del: replace_str.simps)
    next
      case False
      with Cons have a: "\<not> prefix TEMP_PLACEHOLDER (c # X')" by simp
      from placeholder_no_border[OF False] Cons
      have b: "\<not> prefix TEMP_PLACEHOLDER (c # X' @ TEMP_PLACEHOLDER @ Y)" by simp
      have "replace_str TEMP_PLACEHOLDER new (X' @ TEMP_PLACEHOLDER @ Y)
                     = replace_str TEMP_PLACEHOLDER new X' @ new @ replace_str TEMP_PLACEHOLDER new Y"
        by (rule IH) (simp add: Cons)
      then show ?thesis
        unfolding Cons append_Cons restore_other[OF a] restore_other[OF b]
        by (simp del: replace_str.simps)
    qed
  qed
qed

lemma escape_dollars_around_placeholder:
  "escape_dollars (a @ TEMP_PLACEHOLDER @ b) = escape_dollars a @ ESCAPED_DOLLAR @ escape_dollars b"
  unfolding escape_dollars_def Let_def mark_around_placeholder replace_dollar_append
    replace_dollar_free[OF placeholder_chars(2)] restore_around_placeholder ..

text \<open>
  C4 (as amended). For every compiled report string that does not contain the marker
  \<open>TEMP_PLACEHOLDER\<close>, the escaping pass leaves every already escaped dollar unchanged,
  gives every bare dollar exactly one backslash and copies everything else: it is the
  reference escaping. In particular the spec's example holds: an escaped dollar, \<open>5 and \<close>,
  a bare dollar and \<open>10\<close> come out with the escaped dollar kept and the bare one escaped.
\<close>

theorem escaping_pass_without_marker:
  "(\<not> contains_str ''TEMP_PLACEHOLDER'' s \<longrightarrow> escape_dollars s = escape_each_bare_dollar s)
   \<and> escape_dollars (BACKSLASH # ''$5 and $10'')
       = BACKSLASH # ''$5 and '' @ BACKSLASH # ''$10''"
proof
  show "\<not> contains_str ''TEMP_PLACEHOLDER'' s \<longrightarrow> escape_dollars s = escape_each_bare_dollar s"
    using escape_dollars_reference[of s] by (simp only: TEMP_PLACEHOLDER_def) blast
  have "\<not> contains_str TEMP_PLACEHOLDER (BACKSLASH # ''$5 and $10'')"
    by (simp add: TEMP_PLACEHOLDER_def)
  then show "escape_dollars (BACKSLASH # ''$5 and $10'')
               = BACKSLASH # ''$5 and '' @ BACKSLASH # ''$10''"
    by (simp add: escape_dollars_reference)
qed

theorem escaping_pass_without_marker_witness:
  "\<not> contains_str ''TEMP_PLACEHOLDER'' (''cost: $7, tax: '' @ BACKSLASH # ''$1'')
   \<and> escape_dollars (''cost: $7, tax: '' @ BACKSLASH # ''$1'')
       = escape_each_bare_dollar (''cost: $7, tax: '' @ BACKSLASH # ''$1'')
   \<and> escape_dollars (''cost: $7, tax: '' @ BACKSLASH # ''$1'')
       = ''cost: '' @ BACKSLASH # ''$7, tax: '' @ BACKSLASH # ''$1''"
  using escaping_pass_without_marker[of "''cost: $7, tax: '' @ BACKSLASH # ''$1''"]
  by simp

text \<open>
  C4 as stated fails: on a string that holds the marker next to an escaped and a bare
  dollar, the pass turns the marker into an escaped dollar. The output differs from the
  reference escaping and holds three dollars where the input holds two.
\<close>

theorem escaping_pass_counterexample:
  "escape_dollars (''TEMP_PLACEHOLDER '' @ BACKSLASH # ''$5 and $10'')
     = BACKSLASH # ''$ '' @ BACKSLASH # ''$5 and '' @ BACKSLASH # ''$10''
   \<and> escape_dollars (''TEMP_PLACEHOLDER '' @ BACKSLASH # ''$5 and $10'')
       \<noteq> escape_each_bare_dollar (''TEMP_PLACEHOLDER '' @ BACKSLASH # ''$5 and $10'')
   \<and> count_list (''TEMP_PLACEHOLDER '' @ BACKSLASH # ''$5 and $10'') DOLLAR = 2
   \<and> count_list (escape_dollars (''TEMP_PLACEHOLDER '' @ BACKSLASH # ''$5 and $10'')) DOLLAR = 3"
  by (simp add: escape_dollars_def ESCAPED_DOLLAR_def TEMP_PLACEHOLDER_def)

text \<open>
  C10. Every occurrence of the literal \<open>TEMP_PLACEHOLDER\<close> in the concatenated section
  contents comes out of the escaping pass as an escaped dollar, whatever stands before
  and after it: the marker of the pass collides with real content.
\<close>

theorem marker_in_content_becomes_escaped_dollar:
  "escape_dollars (a @ ''TEMP_PLACEHOLDER'' @ b)
     = escape_dollars a @ [BACKSLASH, DOLLAR] @ escape_dollars b"
  using escape_dollars_around_placeholder[of a b]
  by (simp only: TEMP_PLACEHOLDER_def ESCAPED_DOLLAR_def)

section \<open>The search aggregator: results\<close>

text \<open>
  The loops of the aggregator are first related to list functions (a filter for the task
  loop, first occurrences for the deduplication loop); the claims follow from these.
\<close>

lemma strip_header: "py_strip ''Content from web search:\<newline>\<newline>'' = ''Content from web search:''"
  by (simp add: py_strip_def py_isspace_def)

lemma create_search_tasks_eq:
  "create_search_tasks tv n raw acc qs =
     acc @ concat (map (\<lambda>q. case raw_results_async tv (query_str q) n ''advanced'' False raw of
                               Inr task \<Rightarrow> [task] | Inl e \<Rightarrow> []) qs)"
  by (induction qs arbitrary: acc) (auto split: sum.splits)

lemma valid_results_append: "valid_results (xs @ ys) = valid_results xs @ valid_results ys"
  by (simp add: valid_results_def)

lemma valid_results_tasks:
  "valid_results (concat (map (\<lambda>q. case f q of Inr task \<Rightarrow> [task] | Inl e \<Rightarrow> []) qs))
     = concat (map (\<lambda>q. case f q of Inr (Inr doc) \<Rightarrow> [doc] | Inr (Inl e) \<Rightarrow> [] | Inl e \<Rightarrow> []) qs)"
  by (induction qs) (auto simp: valid_results_def split: sum.splits)

text \<open>
  C6. For every batch of queries \<^verbatim>\<open>run_search_queries\<close> returns and never raises: when the
  search client cannot be constructed the result is the empty list, and otherwise it is
  the list of the responses of the queries that succeeded, in query order; a query whose
  call raises or whose task settles to an exception is left out.
\<close>

theorem run_search_queries_never_raises:
  "(constructed = Inl e \<longrightarrow> run_search_queries constructed qs n raw = Inr [])
   \<and> (constructed = Inr client \<longrightarrow>
        run_search_queries constructed qs n raw =
          Inr (concat (map (\<lambda>q. case raw_results_async client (query_str q) n ''advanced'' False raw of
                               Inr (Inr doc) \<Rightarrow> [doc] | Inr (Inl e) \<Rightarrow> [] | Inl e \<Rightarrow> []) qs)))"
proof (intro conjI impI)
  assume "constructed = Inl e"
  then show "run_search_queries constructed qs n raw = Inr []"
    by (simp add: run_search_queries_def get_tavily_search_def)
next
  assume c: "constructed = Inr client"
  let ?tasks = "create_search_tasks client n raw [] qs"
  have "valid_results ?tasks = concat (map (\<lambda>q. case raw_results_async client (query_str q) n ''advanced'' False raw of
                               Inr (Inr doc) \<Rightarrow> [doc] | Inr (Inl e) \<Rightarrow> [] | Inl e \<Rightarrow> []) qs)"
    by (simp add: create_search_tasks_eq valid_results_tasks)
  moreover have "?tasks = [] \<Longrightarrow> valid_results ?tasks = []"
    by (simp add: valid_results_def)
  ultimately have "(if ?tasks = [] then Inr [] else Inr (valid_results ?tasks))
          = (Inr (concat (map (\<lambda>q. case raw_results_async client (query_str q) n ''advanced'' False raw of
                               Inr (Inr doc) \<Rightarrow> [doc] | Inr (Inl e) \<Rightarrow> [] | Inl e \<Rightarrow> []) qs))
              :: error + pyval list)"
    by (cases "?tasks = []") simp_all
  then show "run_search_queries constructed qs n raw =
          Inr (concat (map (\<lambda>q. case raw_results_async client (query_str q) n ''advanced'' False raw of
                               Inr (Inr doc) \<Rightarrow> [doc] | Inr (Inl e) \<Rightarrow> [] | Inl e \<Rightarrow> []) qs))"
    unfolding c run_search_queries_def get_tavily_search_def Let_def by simp
qed

lemma url_of_dict: "url_of (PDict d) = map_of d ''url''"
  by (simp add: url_of_def)

lemma dedup_loop_without_url:
  "\<not> with_url s \<Longrightarrow> dedup_loop acc (s # rest) = dedup_loop acc rest"
  by (cases s) (simp_all add: with_url_def url_of_def has_key_def)

lemma url_of_SomeE:
  assumes "url_of s = Some u"
  obtains d where "s = PDict d" "map_of d ''url'' = Some u"
  using assms by (cases s) (simp_all add: url_of_def)

lemma dedup_loop_with_url:
  "map_of d ''url'' = Some u \<Longrightarrow>
   dedup_loop acc (PDict d # rest) =
     (if \<not> hashable u then Inl TypeError
      else if u \<notin> fst ` set acc then dedup_loop (acc @ [(u, d)]) rest
      else dedup_loop acc rest)"
  by (simp add: has_key_def dict_get_def)

lemma dedup_loop_skip_no_url:
  "dedup_loop acc (filter with_url srcs) = dedup_loop acc srcs"
proof (induction srcs arbitrary: acc)
  case Nil
  show ?case by simp
next
  case (Cons s srcs)
  show ?case
  proof (cases "with_url s")
    case False
    then show ?thesis by (simp add: Cons dedup_loop_without_url del: dedup_loop.simps)
  next
    case True
    then obtain u where "url_of s = Some u" by (auto simp: with_url_def)
    then obtain d where "s = PDict d" "map_of d ''url'' = Some u" by (rule url_of_SomeE)
    with True show ?thesis
      by (simp add: Cons dedup_loop_with_url del: dedup_loop.simps)
  qed
qed

text \<open>
  C8. Whenever the flattening of the input yields an empty source list,
  \<^verbatim>\<open>format_search_query_results\<close> returns the literal \<open>No search results found.\<close> as an
  ordinary result, not an exception.
\<close>

theorem no_sources_fixed_literal: "flatten_response resp = Inr [] \<Longrightarrow>
   format_search_query_results enc resp mt raw = Inr ''No search results found.''"
  by (simp add: format_search_query_results_def format_sources_def)

text \<open>
  C9. When the flattened source list is not empty, the output is built from the sources
  that are dicts with a \<open>url\<close> key only: a source without one never appears. If no
  source has a URL the result is the bare header \<open>Content from web search:\<close>, not the
  literal for an empty list.
\<close>

theorem sources_without_url_dropped:
  "flatten_response resp = Inr srcs \<Longrightarrow> srcs \<noteq> [] \<Longrightarrow>
   format_search_query_results enc resp mt raw =
     (if filter with_url srcs = [] then Inr ''Content from web search:''
      else format_sources enc mt raw (filter with_url srcs))"
proof -
  assume f: "flatten_response resp = Inr srcs" and n: "srcs \<noteq> []"
  have d: "dedup_loop [] srcs = dedup_loop [] (filter with_url srcs)"
    by (simp only: dedup_loop_skip_no_url)
  show ?thesis
  proof (cases "filter with_url srcs = []")
    case True
    with d have "dedup_loop [] srcs = Inr []" by simp
    with f n True show ?thesis
      by (simp add: format_search_query_results_def format_sources_def strip_header)
  next
    case False
    with f n d show ?thesis
      by (simp add: format_search_query_results_def format_sources_def)
  qed
qed

lemma drop_later_duplicates_empty: "drop_later_duplicates srcs = [] \<longleftrightarrow> srcs = []"
  by (cases srcs) simp_all

lemma dedup_loop_skip_seen:
  "u \<in> fst ` set acc \<Longrightarrow> hashable u \<Longrightarrow>
   dedup_loop acc (filter (\<lambda>t. url_of t \<noteq> Some u) rest) = dedup_loop acc rest"
proof (induction rest arbitrary: acc)
  case Nil
  show ?case by simp
next
  case (Cons t rest)
  show ?case
  proof (cases "url_of t")
    case None
    then have "\<not> with_url t" by (simp add: with_url_def)
    with None Cons show ?thesis
      by (simp add: dedup_loop_without_url del: dedup_loop.simps)
  next
    case (Some v)
    then obtain d where "t = PDict d" "map_of d ''url'' = Some v" by (rule url_of_SomeE)
    with Some Cons show ?thesis
      by (simp add: dedup_loop_with_url del: dedup_loop.simps)
  qed
qed

lemma dedup_loop_drop_later_duplicates:
  "dedup_loop acc (drop_later_duplicates srcs) = dedup_loop acc srcs"
proof (induction srcs arbitrary: acc rule: drop_later_duplicates.induct)
  case 1
  show ?case by simp
next
  case (2 s rest)
  let ?kept = "filter (\<lambda>t. url_of s = None \<or> url_of t \<noteq> url_of s) rest"
  show ?case
  proof (cases "url_of s")
    case None
    then have "\<not> with_url s" and "?kept = rest" by (simp_all add: with_url_def)
    with 2 show ?thesis
      by (simp add: dedup_loop_without_url del: dedup_loop.simps)
  next
    case (Some u)
    then obtain d where d: "s = PDict d" "map_of d ''url'' = Some u" by (rule url_of_SomeE)
    from Some have kept: "?kept = filter (\<lambda>t. url_of t \<noteq> Some u) rest" by simp
    show ?thesis
    proof (cases "hashable u")
      case False
      with Some d show ?thesis
        by (simp add: dedup_loop_with_url del: dedup_loop.simps)
    next
      case True
      let ?acc = "if u \<notin> fst ` set acc then acc @ [(u, d)] else acc"
      have seen: "u \<in> fst ` set ?acc" by force
      have "dedup_loop acc (s # drop_later_duplicates ?kept) = dedup_loop ?acc (drop_later_duplicates ?kept)"
        using Some d True by (simp add: dedup_loop_with_url del: dedup_loop.simps)
      also have "\<dots> = dedup_loop ?acc ?kept" by (rule 2)
      also have "\<dots> = dedup_loop ?acc rest"
        unfolding kept by (rule dedup_loop_skip_seen[OF seen True])
      also have "\<dots> = dedup_loop acc (s # rest)"
        using Some d True by (simp add: dedup_loop_with_url del: dedup_loop.simps)
      finally show ?thesis by (simp del: dedup_loop.simps)
    qed
  qed
qed

lemma format_sources_drop_later_duplicates:
  "format_sources enc mt raw (drop_later_duplicates srcs) = format_sources enc mt raw srcs"
  by (simp add: format_sources_def dedup_loop_drop_later_duplicates drop_later_duplicates_empty)

lemma flatten_list_of_list: "flatten_response (PList [PList xs]) = Inr xs"
  by simp

lemma dedup_loop_entries:
  "(\<And>t u. t \<in> set srcs \<Longrightarrow> url_of t = Some u \<Longrightarrow> hashable u) \<Longrightarrow>
   dedup_loop acc srcs = Inr (acc @ entries (drop_later_duplicates (filter (fresh acc) srcs)))"
proof (induction srcs arbitrary: acc)
  case Nil
  show ?case by (simp add: entries_def)
next
  case (Cons s rest)
  have IH: "dedup_loop acc' rest = Inr (acc' @ entries (drop_later_duplicates (filter (fresh acc') rest)))" for acc'
    by (rule Cons.IH) (auto intro: Cons.prems)
  show ?case
  proof (cases "url_of s")
    case None
    then have "\<not> with_url s" "\<not> fresh acc s" by (simp_all add: with_url_def fresh_def)
    then show ?thesis by (simp add: dedup_loop_without_url IH del: dedup_loop.simps)
  next
    case (Some u)
    then obtain d where d: "s = PDict d" "map_of d ''url'' = Some u" by (rule url_of_SomeE)
    from Some have h: "hashable u" by (intro Cons.prems[of s u]) simp_all
    show ?thesis
    proof (cases "u \<in> fst ` set acc")
      case True
      with Some have "\<not> fresh acc s" by (simp add: fresh_def)
      with Some d h True show ?thesis
        by (simp add: dedup_loop_with_url IH del: dedup_loop.simps)
    next
      case False
      with Some have f: "fresh acc s" by (simp add: fresh_def)
      have "filter (\<lambda>t. url_of s = None \<or> url_of t \<noteq> url_of s) (filter (fresh acc) rest)
              = filter (fresh (acc @ [(u, d)])) rest"
        unfolding filter_filter using Some
        by (intro filter_cong) (auto simp: fresh_def split: option.splits)
      moreover from Some d have "entries (s # xs) = (u, d) # entries xs" for xs
        by (simp add: entries_def url_of_def)
      ultimately show ?thesis
        using Some d h False f
        by (simp add: dedup_loop_with_url IH del: dedup_loop.simps)
    qed
  qed
qed

lemma dedup_loop_first_occurrences:
  assumes "\<And>t u. t \<in> set srcs \<Longrightarrow> url_of t = Some u \<Longrightarrow> hashable u"
  shows "dedup_loop [] srcs = Inr (entries (drop_later_duplicates (filter with_url srcs)))"
proof -
  have "fresh [] = with_url" by (auto simp: fresh_def with_url_def split: option.splits)
  with dedup_loop_entries[of srcs "[]"] assms show ?thesis by simp
qed

lemma dedup_loop_distinct:
  "dedup_loop acc srcs = Inr us \<Longrightarrow> distinct (map fst acc) \<Longrightarrow> distinct (map fst us)"
proof (induction srcs arbitrary: acc)
  case Nil
  then show ?case by simp
next
  case (Cons s rest)
  show ?case
  proof (cases "url_of s")
    case None
    then have "\<not> with_url s" by (simp add: with_url_def)
    with Cons show ?thesis by (simp add: dedup_loop_without_url del: dedup_loop.simps)
  next
    case (Some u)
    then obtain d where d: "s = PDict d" "map_of d ''url'' = Some u" by (rule url_of_SomeE)
    with Cons.prems Cons.IH[of acc] Cons.IH[of "acc @ [(u, d)]"] show ?thesis
      by (auto simp: dedup_loop_with_url simp del: dedup_loop.simps split: if_splits)
  qed
qed

lemma format_loop_blocks:
  "(\<And>e. e \<in> set es \<Longrightarrow> \<exists>b. source_block enc mt raw (snd e) = Inr b) \<Longrightarrow>
   format_loop enc mt raw acc es
     = Inr (acc @ concat (map (\<lambda>e. projr (source_block enc mt raw (snd e))) es))"
proof (induction es arbitrary: acc)
  case Nil
  show ?case by simp
next
  case (Cons e es)
  from Cons.prems[of e] obtain b where b: "source_block enc mt raw (snd e) = Inr b" by auto
  have "format_loop enc mt raw (acc @ b) es
          = Inr ((acc @ b) @ concat (map (\<lambda>e. projr (source_block enc mt raw (snd e))) es))"
    by (rule Cons.IH) (simp add: Cons.prems)
  with b show ?case by simp
qed

lemma source_block_without_raw: "\<exists>b. source_block enc mt False d = Inr b"
  by (simp add: source_block_def Let_def)

lemma format_from_first_occurrences:
  assumes "flatten_response resp = Inr srcs" "srcs \<noteq> []"
    and "\<forall>t\<in>set srcs. \<forall>u. url_of t = Some u \<longrightarrow> hashable u"
  shows "format_search_query_results enc resp mt raw
           = (case format_loop enc mt raw ''Content from web search:\<newline>\<newline>''
                     (entries (drop_later_duplicates (filter with_url srcs))) of
                Inl e \<Rightarrow> Inl e
              | Inr formatted_text \<Rightarrow> Inr (py_strip formatted_text))"
proof -
  from assms(3) have "dedup_loop [] srcs = Inr (entries (drop_later_duplicates (filter with_url srcs)))"
    by (intro dedup_loop_first_occurrences) blast
  with assms(1,2) show ?thesis
    by (simp add: format_search_query_results_def format_sources_def)
qed

text \<open>
  C7. \<^verbatim>\<open>format_search_query_results\<close> deduplicates the flattened sources by URL, keeping
  the first source of every URL in first-seen order and dropping every later one: for a
  non-empty flattening with hashable URLs the returned string is the header followed by
  the block of each such first source, in that order and with no URL twice, stripped
  (without raw content always, with it whenever every block can be built). Hence
  formatting a batch gives the same result as formatting the batch with the later
  duplicates already removed.
\<close>

theorem format_dedup_by_url:
  "(flatten_response resp = Inr srcs \<and> srcs \<noteq> []
      \<and> (\<forall>t\<in>set srcs. \<forall>u. url_of t = Some u \<longrightarrow> hashable u) \<longrightarrow>
      distinct (map fst (entries (drop_later_duplicates (filter with_url srcs))))
      \<and> format_search_query_results enc resp mt False
          = Inr (py_strip (''Content from web search:\<newline>\<newline>''
                  @ concat (map (\<lambda>e. projr (source_block enc mt False (snd e)))
                              (entries (drop_later_duplicates (filter with_url srcs))))))
      \<and> ((\<forall>e\<in>set (entries (drop_later_duplicates (filter with_url srcs))).
              \<exists>b. source_block enc mt raw (snd e) = Inr b) \<longrightarrow>
           format_search_query_results enc resp mt raw
             = Inr (py_strip (''Content from web search:\<newline>\<newline>''
                     @ concat (map (\<lambda>e. projr (source_block enc mt raw (snd e)))
                                 (entries (drop_later_duplicates (filter with_url srcs))))))))
   \<and> (flatten_response resp = Inr srcs \<longrightarrow>
      format_search_query_results enc resp mt raw
        = format_search_query_results enc (PList [PList (drop_later_duplicates srcs)]) mt raw)
   \<and> ((\<forall>t\<in>set srcs. \<forall>u. url_of t = Some u \<longrightarrow> hashable u) \<longrightarrow>
        dedup_loop [] srcs = Inr (entries (drop_later_duplicates (filter with_url srcs))))
   \<and> (dedup_loop [] srcs = Inr us \<longrightarrow> distinct (map fst us))"
proof (intro conjI impI)
  let ?E = "entries (drop_later_duplicates (filter with_url srcs))"
  {
    assume a: "flatten_response resp = Inr srcs \<and> srcs \<noteq> []
      \<and> (\<forall>t\<in>set srcs. \<forall>u. url_of t = Some u \<longrightarrow> hashable u)"
    then have loop: "dedup_loop [] srcs = Inr ?E"
      by (intro dedup_loop_first_occurrences) blast
    from loop show "distinct (map fst ?E)"
      by (rule dedup_loop_distinct) simp
    have link: "format_search_query_results enc resp mt r
           = (case format_loop enc mt r ''Content from web search:\<newline>\<newline>'' ?E of
                Inl e \<Rightarrow> Inl e
              | Inr formatted_text \<Rightarrow> Inr (py_strip formatted_text))" for r
      using a by (intro format_from_first_occurrences) simp_all
    have "format_loop enc mt False ''Content from web search:\<newline>\<newline>'' ?E
            = Inr (''Content from web search:\<newline>\<newline>''
                    @ concat (map (\<lambda>e. projr (source_block enc mt False (snd e))) ?E))"
      by (rule format_loop_blocks) (rule source_block_without_raw)
    then show "format_search_query_results enc resp mt False
          = Inr (py_strip (''Content from web search:\<newline>\<newline>''
                  @ concat (map (\<lambda>e. projr (source_block enc mt False (snd e))) ?E)))"
      by (simp only: link sum.case)
    {
      assume "\<forall>e\<in>set ?E. \<exists>b. source_block enc mt raw (snd e) = Inr b"
      then have "format_loop enc mt raw ''Content from web search:\<newline>\<newline>'' ?E
            = Inr (''Content from web search:\<newline>\<newline>''
                    @ concat (map (\<lambda>e. projr (source_block enc mt raw (snd e))) ?E))"
        by (intro format_loop_blocks) blast
      then show "format_search_query_results enc resp mt raw
          = Inr (py_strip (''Content from web search:\<newline>\<newline>''
                  @ concat (map (\<lambda>e. projr (source_block enc mt raw (snd e))) ?E)))"
        by (simp only: link sum.case)
    }
  }
  {
    assume "flatten_response resp = Inr srcs"
    then show "format_search_query_results enc resp mt raw
        = format_search_query_results enc (PList [PList (drop_later_duplicates srcs)]) mt raw"
      by (simp add: format_search_query_results_def format_sources_drop_later_duplicates)
  }
  {
    assume "\<forall>t\<in>set srcs. \<forall>u. url_of t = Some u \<longrightarrow> hashable u"
    then show "dedup_loop [] srcs = Inr ?E"
      by (intro dedup_loop_first_occurrences) blast
  }
  {
    assume "dedup_loop [] srcs = Inr us"
    then show "distinct (map fst us)"
      by (rule dedup_loop_distinct) simp
  }
qed

lemma example_sources:
  "url_of source_a = Some (PStr ''http://a'')" "url_of source_a_again = Some (PStr ''http://a'')"
  "url_of source_b = Some (PStr ''http://b'')" "url_of source_without_url = None"
  by (simp_all add: url_of_def source_a_def source_a_again_def source_b_def source_without_url_def)

theorem format_dedup_by_url_witness:
  "flatten_response (PList [PDict [(''results'', PList [source_a, source_b])], PList [source_a_again]])
     = Inr [source_a, source_b, source_a_again]
   \<and> drop_later_duplicates [source_a, source_b, source_a_again] = [source_a, source_b]
   \<and> format_search_query_results example_encoding
        (PList [PDict [(''results'', PList [source_a, source_b])], PList [source_a_again]]) 2500 False
       = Inr (''Content from web search:\<newline>\<newline>''
              @ ''Source A:\<newline>===\<newline>URL: http://a\<newline>===\<newline>''
              @ ''Most relevant content from source: alpha\<newline>===\<newline>''
              @ ''Source B:\<newline>===\<newline>URL: http://b\<newline>===\<newline>''
              @ ''Most relevant content from source: beta\<newline>==='')
   \<and> format_search_query_results example_encoding
        (PList [PDict [(''results'', PList [source_a, source_b])], PList [source_a_again]]) 2500 False
       = format_search_query_results example_encoding (PList [PList [source_a, source_b]]) 2500 False
   \<and> dedup_loop [] [source_a, source_b, source_a_again]
       = Inr [(PStr ''http://a'', [(''title'', PStr ''A''), (''url'', PStr ''http://a''), (''content'', PStr ''alpha'')]),
              (PStr ''http://b'', [(''title'', PStr ''B''), (''url'', PStr ''http://b''), (''content'', PStr ''beta'')])]"
proof -
  let ?resp = "PList [PDict [(''results'', PList [source_a, source_b])], PList [source_a_again]]"
  let ?srcs = "[source_a, source_b, source_a_again]"
  let ?E = "[(PStr ''http://a'', [(''title'', PStr ''A''), (''url'', PStr ''http://a''), (''content'', PStr ''alpha'')]),
             (PStr ''http://b'', [(''title'', PStr ''B''), (''url'', PStr ''http://b''), (''content'', PStr ''beta'')])]"
  have f: "flatten_response ?resp = Inr ?srcs"
    by (simp add: dict_sources_def has_key_def dict_get_def)
  have h: "\<forall>t\<in>set ?srcs. \<forall>u. url_of t = Some u \<longrightarrow> hashable u"
    by (simp add: example_sources)
  have k: "filter with_url ?srcs = ?srcs"
    by (simp add: with_url_def example_sources)
  have d: "drop_later_duplicates ?srcs = [source_a, source_b]"
    by (simp add: example_sources)
  have e: "entries [source_a, source_b] = ?E"
    by (simp add: entries_def source_a_def source_b_def)
  have b: "concat (map (\<lambda>e. projr (source_block example_encoding 2500 False (snd e))) ?E)
             = ''Source A:\<newline>===\<newline>URL: http://a\<newline>===\<newline>''
              @ ''Most relevant content from source: alpha\<newline>===\<newline>''
              @ ''Source B:\<newline>===\<newline>URL: http://b\<newline>===\<newline>''
              @ ''Most relevant content from source: beta\<newline>===\<newline>''"
    by (simp add: source_block_def dict_get_def example_encoding_def Let_def)
  note inst = format_dedup_by_url[of ?resp ?srcs example_encoding 2500 False ?E]
  from inst f h have out: "format_search_query_results example_encoding ?resp 2500 False
      = Inr (py_strip (''Content from web search:\<newline>\<newline>''
              @ concat (map (\<lambda>e. projr (source_block example_encoding 2500 False (snd e)))
                          (entries (drop_later_duplicates (filter with_url ?srcs))))))"
    by blast
  have s: "py_strip (''Content from web search:\<newline>\<newline>''
              @ ''Source A:\<newline>===\<newline>URL: http://a\<newline>===\<newline>''
              @ ''Most relevant content from source: alpha\<newline>===\<newline>''
              @ ''Source B:\<newline>===\<newline>URL: http://b\<newline>===\<newline>''
              @ ''Most relevant content from source: beta\<newline>===\<newline>'')
           = ''Content from web search:\<newline>\<newline>''
              @ ''Source A:\<newline>===\<newline>URL: http://a\<newline>===\<newline>''
              @ ''Most relevant content from source: alpha\<newline>===\<newline>''
              @ ''Source B:\<newline>===\<newline>URL: http://b\<newline>===\<newline>''
              @ ''Most relevant content from source: beta\<newline>==='' "
    by (simp add: py_strip_def py_isspace_def)
  from out have 1: "format_search_query_results example_encoding ?resp 2500 False
       = Inr (''Content from web search:\<newline>\<newline>''
              @ ''Source A:\<newline>===\<newline>URL: http://a\<newline>===\<newline>''
              @ ''Most relevant content from source: alpha\<newline>===\<newline>''
              @ ''Source B:\<newline>===\<newline>URL: http://b\<newline>===\<newline>''
              @ ''Most relevant content from source: beta\<newline>==='')"
    unfolding k d e b s .
  from inst f d have 2: "format_search_query_results example_encoding ?resp 2500 False
       = format_search_query_results example_encoding (PList [PList [source_a, source_b]]) 2500 False"
    by simp
  from inst h have "dedup_loop [] ?srcs = Inr (entries (drop_later_duplicates (filter with_url ?srcs)))"
    by blast
  then have 3: "dedup_loop [] ?srcs = Inr ?E"
    unfolding k d e .
  from f d 1 2 3 show ?thesis by blast
qed

theorem run_search_queries_never_raises_witness:
  "run_search_queries (Inl (ProviderError ''no key''))
      [QStr ''ev'', QSearchQuery ''slow'', QStr ''other'', QSearchQuery ''ev''] 4 False = Inr []
   \<and> run_search_queries (Inr example_tavily)
      [QStr ''ev'', QSearchQuery ''slow'', QStr ''other'', QSearchQuery ''ev''] 4 False
       = Inr [response_ev, response_ev]"
  using run_search_queries_never_raises[of "Inl (ProviderError ''no key'')" "ProviderError ''no key''"
              "[QStr ''ev'', QSearchQuery ''slow'', QStr ''other'', QSearchQuery ''ev'']" 4 False]
        run_search_queries_never_raises[of "Inr example_tavily" _
              "[QStr ''ev'', QSearchQuery ''slow'', QStr ''other'', QSearchQuery ''ev'']" 4 False
              example_tavily]
  by (simp add: example_tavily_def)

theorem no_sources_fixed_literal_witness:
  "format_search_query_results example_encoding (PList []) 2500 False = Inr ''No search results found.''
   \<and> format_search_query_results example_encoding (PDict [(''results'', PList [])]) 2500 False
       = Inr ''No search results found.''
   \<and> format_search_query_results example_encoding (PList [PStr ''junk'', PList [], PNone]) 4000 True
       = Inr ''No search results found.''
   \<and> format_search_query_results example_encoding PNone 2500 False = Inr ''No search results found.''"
  using no_sources_fixed_literal[of "PList []" example_encoding 2500 False]
        no_sources_fixed_literal[of "PDict [(''results'', PList [])]" example_encoding 2500 False]
        no_sources_fixed_literal[of "PList [PStr ''junk'', PList [], PNone]" example_encoding 4000 True]
        no_sources_fixed_literal[of PNone example_encoding 2500 False]
  by (simp add: dict_sources_def has_key_def dict_get_def)

theorem sources_without_url_dropped_witness:
  "format_search_query_results example_encoding
      (PList [PDict [(''results'', PList [source_without_url, PStr ''junk''])]]) 2500 False
     = Inr ''Content from web search:''
   \<and> format_search_query_results example_encoding
      (PList [PList [source_without_url, source_b]]) 2500 False
     = format_sources example_encoding 2500 False [source_b]
   \<and> format_sources example_encoding 2500 False [source_b]
     = Inr (''Content from web search:\<newline>\<newline>Source B:\<newline>===\<newline>URL: http://b\<newline>===\<newline>''
            @ ''Most relevant content from source: beta\<newline>==='')"
proof -
  have url: "url_of (PStr ''junk'') = None" by (simp add: url_of_def)
  have f1: "flatten_response (PList [PDict [(''results'', PList [source_without_url, PStr ''junk''])]])
              = Inr [source_without_url, PStr ''junk'']"
    by (simp add: dict_sources_def has_key_def dict_get_def)
  have f2: "flatten_response (PList [PList [source_without_url, source_b]])
              = Inr [source_without_url, source_b]"
    by simp
  have k1: "filter with_url [source_without_url, PStr ''junk''] = []"
    by (simp add: with_url_def example_sources url)
  have k2: "filter with_url [source_without_url, source_b] = [source_b]"
    by (simp add: with_url_def example_sources)
  have a: "format_search_query_results example_encoding
      (PList [PDict [(''results'', PList [source_without_url, PStr ''junk''])]]) 2500 False
     = Inr ''Content from web search:''"
    using sources_without_url_dropped[OF f1, of example_encoding 2500 False] by (simp only: k1) simp
  have b: "format_search_query_results example_encoding
      (PList [PList [source_without_url, source_b]]) 2500 False
     = format_sources example_encoding 2500 False [source_b]"
    using sources_without_url_dropped[OF f2, of example_encoding 2500 False] by (simp only: k2) simp
  have c: "format_sources example_encoding 2500 False [source_b]
     = Inr (''Content from web search:\<newline>\<newline>Source B:\<newline>===\<newline>URL: http://b\<newline>===\<newline>''
            @ ''Most relevant content from source: beta\<newline>==='')"
    by (simp add: format_sources_def source_b_def has_key_def dict_get_def source_block_def
        example_encoding_def py_strip_def py_isspace_def Let_def)
  from a b c show ?thesis by simp
qed

section \<open>The report workflow: results\<close>

text \<open>
  The compile step is characterised through the keys of the name-to-content map; the
  stages and the run are then evaluated where a provider fails.
\<close>

lemma name_to_content_other:
  "k \<notin> name ` set cs \<Longrightarrow> name_to_content m cs k = m k"
  by (induction cs arbitrary: m) auto

lemma name_to_content_dom:
  "dom (name_to_content m cs) = dom m \<union> name ` set cs"
  by (induction cs arbitrary: m) auto

lemma name_to_content_distinct:
  "distinct (map name cs) \<Longrightarrow> s \<in> set cs \<Longrightarrow> name_to_content m cs (name s) = Some (content s)"
proof (induction cs arbitrary: m)
  case Nil
  then show ?case by simp
next
  case (Cons c cs)
  show ?case
  proof (cases "s = c")
    case True
    with Cons.prems show ?thesis by (simp add: name_to_content_other)
  next
    case False
    with Cons show ?thesis by auto
  qed
qed

lemma reassign_contents_error:
  "reassign_contents m secs = Inl e \<Longrightarrow> \<exists>s\<in>set secs. e = KeyError (name s) \<and> name s \<notin> dom m"
  by (induction secs) (auto split: option.splits sum.splits)

lemma reassign_contents_missing:
  "\<exists>s\<in>set secs. name s \<notin> dom m \<Longrightarrow> \<exists>k. reassign_contents m secs = Inl (KeyError k)"
proof (induction secs)
  case Nil
  then show ?case by simp
next
  case (Cons s secs)
  show ?case
  proof (cases "m (name s)")
    case None
    then show ?thesis by simp
  next
    case (Some c)
    with Cons.prems have "\<exists>t\<in>set secs. name t \<notin> dom m" by auto
    from Cons.IH[OF this] Some show ?thesis by auto
  qed
qed

lemma reassign_contents_ok:
  "(\<And>s. s \<in> set secs \<Longrightarrow> m (name s) = Some (w (name s))) \<Longrightarrow>
   reassign_contents m secs = Inr (map (\<lambda>s. s\<lparr>content := w (name s)\<rparr>) secs)"
  by (induction secs) auto

text \<open>
  C1 (as amended). The compile step fails exactly when the name of some planned section
  is not a key of the name-to-content map built from \<open>completed_sections\<close>, and then it
  fails with a \<open>KeyError\<close> (the specification's \<open>MissingSectionError\<close>) for such a name
  instead of leaving the section out; the compile step raises no other error.
\<close>

theorem compile_fails_on_missing_section:
  "(compile_final_report state = Inl e \<longrightarrow>
      (\<exists>s\<in>set (sections state). e = KeyError (name s) \<and> name s \<notin> name ` set (completed_sections state)))
   \<and> ((\<exists>s\<in>set (sections state). name s \<notin> name ` set (completed_sections state)) \<longrightarrow>
        (\<exists>k. compile_final_report state = Inl (KeyError k)))"
proof (intro conjI impI)
  let ?m = "name_to_content Map.empty (completed_sections state)"
  have d: "dom ?m = name ` set (completed_sections state)" by (simp add: name_to_content_dom)
  {
    assume "compile_final_report state = Inl e"
    then have "reassign_contents ?m (sections state) = Inl e"
      by (simp add: compile_final_report_def Let_def split: sum.splits)
    from reassign_contents_error[OF this] d
    show "\<exists>s\<in>set (sections state). e = KeyError (name s) \<and> name s \<notin> name ` set (completed_sections state)"
      by simp
  }
  {
    assume "\<exists>s\<in>set (sections state). name s \<notin> name ` set (completed_sections state)"
    with d have "\<exists>s\<in>set (sections state). name s \<notin> dom ?m" by simp
    from reassign_contents_missing[OF this]
    show "\<exists>k. compile_final_report state = Inl (KeyError k)"
      by (auto simp: compile_final_report_def Let_def)
  }
qed

lemma compile_in_plan_order:
  assumes "distinct (map name (sections state))"
    and "mset (completed_sections state) = mset (map (\<lambda>s. s\<lparr>content := w (name s)\<rparr>) (sections state))"
  shows "compile_final_report state =
           Inr (state\<lparr>sections := map (\<lambda>s. s\<lparr>content := w (name s)\<rparr>) (sections state),
                      final_report := escape_dollars
                        (py_join ''\<newline>\<newline>'' (map (\<lambda>s. w (name s)) (sections state)))\<rparr>)"
proof -
  let ?f = "\<lambda>s. s\<lparr>content := w (name s)\<rparr>"
  let ?cs = "completed_sections state"
  let ?m = "name_to_content Map.empty ?cs"
  have "mset (map name ?cs) = image_mset name (mset ?cs)" by simp
  also have "\<dots> = image_mset name (mset (map ?f (sections state)))" by (simp only: assms(2))
  also have "\<dots> = mset (map name (sections state))"
    by (simp add: multiset.map_comp comp_def)
  finally have "distinct (map name ?cs) \<longleftrightarrow> distinct (map name (sections state))"
    by (rule mset_eq_imp_distinct_iff)
  with assms(1) have dist: "distinct (map name ?cs)" by simp
  have set: "set ?cs = ?f ` set (sections state)"
    using mset_eq_setD[OF assms(2)] by simp
  have look: "?m (name s) = Some (w (name s))" if "s \<in> set (sections state)" for s
  proof -
    from that set have "?f s \<in> set ?cs" by blast
    from name_to_content_distinct[OF dist this, of Map.empty] show ?thesis by simp
  qed
  have "reassign_contents ?m (sections state) = Inr (map ?f (sections state))"
    by (rule reassign_contents_ok) (rule look)
  then show ?thesis
    by (simp add: compile_final_report_def Let_def comp_def)
qed

text \<open>
  C3 (as amended). For every plan whose section names are pairwise distinct, and every
  order in which the branches append their completed sections, the compile step puts
  each written content onto its section in plan order and returns the contents joined in
  plan order with blank lines, after the dollar-escaping pass.
\<close>

theorem compile_keeps_plan_order:
  "distinct (map name (sections state)) \<Longrightarrow>
   mset (completed_sections state) = mset (map (\<lambda>s. s\<lparr>content := w (name s)\<rparr>) (sections state)) \<Longrightarrow>
   compile_final_report state =
     Inr (state\<lparr>sections := map (\<lambda>s. s\<lparr>content := w (name s)\<rparr>) (sections state),
                final_report := escape_dollars
                  (py_join ''\<newline>\<newline>'' (map (\<lambda>s. w (name s)) (sections state)))\<rparr>)"
  by (rule compile_in_plan_order)

lemma escape_dollars_example:
  "escape_dollars ''I\<newline>\<newline>B\<newline>\<newline>C $3'' = ''I\<newline>\<newline>B\<newline>\<newline>C '' @ BACKSLASH # ''$3''"
  by (simp add: escape_dollars_def ESCAPED_DOLLAR_def TEMP_PLACEHOLDER_def)

theorem compile_keeps_plan_order_witness:
  "distinct (map name [section_intro, section_batteries, section_charging])
   \<and> compile_final_report
        (planned_state [section_intro, section_batteries, section_charging]
           [section_charging\<lparr>content := ''C $3''\<rparr>, section_intro\<lparr>content := ''I''\<rparr>,
            section_batteries\<lparr>content := ''B''\<rparr>])
     = Inr ((planned_state [section_intro, section_batteries, section_charging]
               [section_charging\<lparr>content := ''C $3''\<rparr>, section_intro\<lparr>content := ''I''\<rparr>,
                section_batteries\<lparr>content := ''B''\<rparr>])
            \<lparr>sections := [section_intro\<lparr>content := ''I''\<rparr>, section_batteries\<lparr>content := ''B''\<rparr>,
                          section_charging\<lparr>content := ''C $3''\<rparr>],
             final_report := ''I\<newline>\<newline>B\<newline>\<newline>C '' @ BACKSLASH # ''$3''\<rparr>)"
proof -
  let ?w = "\<lambda>n. if n = ''Introduction'' then ''I'' else if n = ''Battery Supply Chains'' then ''B'' else ''C $3''"
  let ?state = "planned_state [section_intro, section_batteries, section_charging]
           [section_charging\<lparr>content := ''C $3''\<rparr>, section_intro\<lparr>content := ''I''\<rparr>,
            section_batteries\<lparr>content := ''B''\<rparr>]"
  have d: "distinct (map name (sections ?state))"
    by (simp add: planned_state_def section_intro_def section_batteries_def section_charging_def)
  have m: "mset (completed_sections ?state) = mset (map (\<lambda>s. s\<lparr>content := ?w (name s)\<rparr>) (sections ?state))"
    by (simp add: planned_state_def section_intro_def section_batteries_def section_charging_def)
  from compile_keeps_plan_order[OF d m] d show ?thesis
    by (simp add: planned_state_def section_intro_def section_batteries_def section_charging_def
          escape_dollars_example)
qed

text \<open>
  C3 as stated fails twice. With the same name planned twice the report depends on the
  order in which the two branches append (the later content is used for both sections),
  and a dollar in a content is escaped, so the report is not the plain concatenation.
\<close>

theorem plan_order_counterexample:
  "compile_final_report
      (planned_state [section_intro, section_intro]
         [section_intro\<lparr>content := ''first''\<rparr>, section_intro\<lparr>content := ''second''\<rparr>])
     = Inr ((planned_state [section_intro, section_intro]
               [section_intro\<lparr>content := ''first''\<rparr>, section_intro\<lparr>content := ''second''\<rparr>])
            \<lparr>sections := [section_intro\<lparr>content := ''second''\<rparr>, section_intro\<lparr>content := ''second''\<rparr>],
             final_report := ''second\<newline>\<newline>second''\<rparr>)
   \<and> compile_final_report
      (planned_state [section_intro, section_intro]
         [section_intro\<lparr>content := ''second''\<rparr>, section_intro\<lparr>content := ''first''\<rparr>])
     = Inr ((planned_state [section_intro, section_intro]
               [section_intro\<lparr>content := ''second''\<rparr>, section_intro\<lparr>content := ''first''\<rparr>])
            \<lparr>sections := [section_intro\<lparr>content := ''first''\<rparr>, section_intro\<lparr>content := ''first''\<rparr>],
             final_report := ''first\<newline>\<newline>first''\<rparr>)
   \<and> compile_final_report (planned_state [section_intro] [section_intro\<lparr>content := ''cost $5''\<rparr>])
     = Inr ((planned_state [section_intro] [section_intro\<lparr>content := ''cost $5''\<rparr>])
            \<lparr>sections := [section_intro\<lparr>content := ''cost $5''\<rparr>],
             final_report := ''cost '' @ BACKSLASH # ''$5''\<rparr>)
   \<and> ''cost '' @ BACKSLASH # ''$5'' \<noteq> py_join ''\<newline>\<newline>'' [''cost $5'']"
  by (simp add: compile_final_report_def planned_state_def section_intro_def
        escape_dollars_def ESCAPED_DOLLAR_def TEMP_PLACEHOLDER_def)

text \<open>
  In \<^verbatim>\<open>write_final_sections\<close> the handler of a failed \<^verbatim>\<open>get_llm\<close> does not return: the
  stage goes on to \<^verbatim>\<open>llm.invoke\<close> with \<^verbatim>\<open>llm\<close> unassigned and raises, where
  \<^verbatim>\<open>write_section\<close> returns the section with the error placeholder.
\<close>

lemma final_writer_unbound_llm:
  "get_llm (ChatOpenAI sv) = Inl e \<Longrightarrow>
   write_final_sections sv state = Inl (UnboundLocalError ''llm'')"
  by (simp add: write_final_sections_def Let_def)

lemma search_web_without_client:
  "get_tavily_search (TavilySearchAPIWrapper sv) = Inl e \<Longrightarrow>
   search_web sv state = Inr (state\<lparr>source_str := ''No search results found.''\<rparr>)"
  by (simp add: search_web_def run_search_queries_def format_search_query_results_def
        format_sources_def)

text \<open>
  C2 (as amended). A stage of the section sub-workflow absorbs the failure to construct
  its client: when the chat model cannot be constructed, query generation yields an empty
  query list and section writing yields the section with the fixed error placeholder as
  content; when the search client cannot be constructed, the web search yields the
  no-results literal as context. None of these raises.
\<close>

theorem section_stages_absorb_client_failures:
  "(get_llm (ChatOpenAI sv) = Inl e \<longrightarrow>
      generate_queries sv state = Inr (state\<lparr>search_queries := []\<rparr>)
      \<and> write_section sv state =
          Inr [(the_section state)\<lparr>content := ''Error: Could not generate content due to API issues.''\<rparr>])
   \<and> (get_tavily_search (TavilySearchAPIWrapper sv) = Inl e \<longrightarrow>
        search_web sv state = Inr (state\<lparr>source_str := ''No search results found.''\<rparr>))"
  by (simp add: write_section_def generate_queries_def Let_def search_web_without_client)

theorem section_stages_absorb_client_failures_witness:
  "generate_queries services_no_llm (branch_payload section_batteries [])
     = Inr ((branch_payload section_batteries [])\<lparr>search_queries := []\<rparr>)
   \<and> write_section services_no_llm (branch_payload section_batteries [])
     = Inr [section_batteries\<lparr>content := ''Error: Could not generate content due to API issues.''\<rparr>]
   \<and> search_web services_no_search (branch_payload section_batteries [])
     = Inr ((branch_payload section_batteries [])\<lparr>source_str := ''No search results found.''\<rparr>)"
proof -
  have a: "get_llm (ChatOpenAI services_no_llm)
             = Inl (RuntimeError
          ''OpenAI API key not found or invalid. Please set the OPENAI_API_KEY environment variable.'')"
    by (simp add: services_no_llm_def get_llm_def)
  have b: "get_tavily_search (TavilySearchAPIWrapper services_no_search)
             = Inl (RuntimeError
          ''Tavily API key not found or invalid. Please set the TAVILY_API_KEY environment variable.'')"
    by (simp add: services_no_search_def get_tavily_search_def)
  from section_stages_absorb_client_failures[where sv = services_no_llm
         and state = "branch_payload section_batteries []"] a
       section_stages_absorb_client_failures[where sv = services_no_search
         and state = "branch_payload section_batteries []"] b
  show ?thesis by (simp add: branch_payload_def)
qed

text \<open>
  C2 as stated fails: the section stages guard the construction of the chat model only.
  An exception raised by the call to the model itself leaves query generation, and with
  it the branch.
\<close>

theorem llm_call_error_leaves_stage:
  "generate_queries services_failing_planner (branch_payload section_batteries [])
     = Inl (ProviderError ''bad schema'')
   \<and> section_builder_subagent services_failing_planner (branch_payload section_batteries [])
     = Inl (ProviderError ''bad schema'')"
  by (simp add: section_builder_subagent_def generate_queries_def services_failing_planner_def
        get_llm_def llm_failing_planner_def)









lemma write_section_invoke_fails:
  "write_section services_failing_writer st = Inl (ProviderError ''rate limit'')"
  by (simp add: write_section_def services_failing_writer_def get_llm_def llm_failing_writer_def Let_def)

text \<open>
  C1 as stated fails in its last part: the missing-section error is not the only error
  that leaves the workflow. \<^verbatim>\<open>write_section\<close> guards only the construction of the chat
  model, so an exception raised by \<^verbatim>\<open>llm.invoke\<close> leaves the stage, the branch and the run.
\<close>

theorem writer_error_leaves_workflow:
  "write_section services_failing_writer (branch_payload section_batteries [])
     = Inl (ProviderError ''rate limit'')
   \<and> reporter_agent services_failing_writer ''Impact of electric vehicles on urban infrastructure''
     = Inl (ProviderError ''rate limit'')"
proof -
  have ctx: "\<exists>ctx. format_search_query_results example_encoding (PList [response_ev]) mt raw = Inr ctx"
    for mt raw
    by (cases raw) (simp_all add: format_search_query_results_def format_sources_def response_ev_def
          dict_sources_def has_key_def dict_get_def source_a_def source_b_def source_block_def
          example_encoding_def Let_def)
  have search: "run_search_queries (Inr example_tavily) [QStr ''ev''] 4 raw = Inr [response_ev]" for raw
    by (simp add: run_search_queries_def get_tavily_search_def example_tavily_def valid_results_def)
  obtain c1 where c1: "format_search_query_results example_encoding (PList [response_ev]) 2500 False = Inr c1"
    using ctx by blast
  obtain c2 where c2: "format_search_query_results example_encoding (PList [response_ev]) 4000 True = Inr c2"
    using ctx by blast
  have plan: "plan_sections services_failing_writer llm_failing_writer t = Inr [section_batteries]" for t
    by (simp add: plan_sections_def services_failing_writer_def llm_failing_writer_def
          example_prompts_def search c1)
  have planned: "generate_report_plan services_failing_writer st = Inr (st\<lparr>sections := [section_batteries]\<rparr>)"
    for st
    by (simp add: generate_report_plan_def plan) (simp add: services_failing_writer_def get_llm_def plan[unfolded services_failing_writer_def])
  have queries: "generate_queries services_failing_writer st = Inr (st\<lparr>search_queries := [''ev'']\<rparr>)"
    for st
    by (simp add: generate_queries_def services_failing_writer_def get_llm_def llm_failing_writer_def)
  have web: "search_web services_failing_writer (st\<lparr>search_queries := [''ev'']\<rparr>)
               = Inr (st\<lparr>search_queries := [''ev''], source_str := c2\<rparr>)" for st
    by (simp add: search_web_def services_failing_writer_def search c2)
  have branch: "section_builder_subagent services_failing_writer st = Inl (ProviderError ''rate limit'')"
    for st
    by (simp add: section_builder_subagent_def queries web write_section_invoke_fails)
  have "reporter_agent services_failing_writer t = Inl (ProviderError ''rate limit'')" for t
    unfolding reporter_agent_def Let_def planned
    by (simp add: parallelize_section_writing_def section_batteries_def branch)
  with write_section_invoke_fails show ?thesis by simp
qed

theorem compile_fails_on_missing_section_witness:
  "name section_intro \<notin> name ` set [section_batteries\<lparr>content := ''B''\<rparr>]
   \<and> compile_final_report
        (planned_state [section_batteries, section_intro] [section_batteries\<lparr>content := ''B''\<rparr>])
       = Inl (KeyError ''Introduction'')"
proof -
  let ?state = "planned_state [section_batteries, section_intro] [section_batteries\<lparr>content := ''B''\<rparr>]"
  have missing: "\<exists>s\<in>set (sections ?state). name s \<notin> name ` set (completed_sections ?state)"
    by (simp add: planned_state_def section_intro_def section_batteries_def)
  with compile_fails_on_missing_section[of ?state] obtain k where k: "compile_final_report ?state = Inl (KeyError k)"
    by blast
  with compile_fails_on_missing_section[of ?state "KeyError k"]
  have "\<exists>s\<in>set (sections ?state). KeyError k = KeyError (name s)
          \<and> name s \<notin> name ` set (completed_sections ?state)"
    by blast
  then have "k = ''Introduction''"
    by (simp add: planned_state_def section_intro_def section_batteries_def)
  with k show ?thesis
    by (simp add: section_intro_def section_batteries_def)
qed

end
